theory Spec2Isabelle
  imports Main
begin

section \<open>Values of the host language\<close>

text \<open>
  A JavaScript number as the engine uses it: script ids are integers or \<open>NaN\<close>
  (\<open>Number.parseInt\<close> yields \<open>NaN\<close> on a prefix without digits). Integers are
  kept exact, as a double is from \<open>-2^53\<close> to \<open>2^53\<close>. Beyond that range a double
  rounds, in \<open>Number.parseInt\<close> and in the arithmetic, and the integers here do not:
  the functions below are those of the engine on ids within the range.
\<close>

datatype number = NaN | Num int

fun js_sub :: "number \<Rightarrow> number \<Rightarrow> number" where
  "js_sub (Num a) (Num b) = Num (a - b)"
| "js_sub _ _ = NaN"

fun js_add :: "number \<Rightarrow> number \<Rightarrow> number" where
  "js_add (Num a) (Num b) = Num (a + b)"
| "js_add _ _ = NaN"

text \<open>
  Every \<open>throw\<close> of the sources is a constructor. \<open>DbError m\<close> is an \<open>Error\<close> whose
  message \<open>m\<close> comes from the database driver, \<open>FsError m\<close> one raised by the file
  system, \<open>TypeError\<close> the runtime error of reading a property of \<open>undefined\<close>.
\<close>

datatype exn =
    NotInitialized
  | InvalidSequence string
  | InvalidScriptId string number
  | ScriptModified string
  | DbError string
  | FsError string
  | PatternNoDelimiter
  | PatternCannotParseId string
  | TypeError

section \<open>Script Locator: fs/fsClient.ts\<close>

record MigrationItem =
  sid :: number
  filename :: string
  data :: string
  hash :: string

text \<open>
  The platform the locator runs on: directory listing, file reading, \<open>path.join\<close> and
  the MD5 digest are library calls, taken as parameters. A failing call carries the
  message of the error it throws.
\<close>

record platform =
  readDir :: "string \<Rightarrow> string + string list"
  readFile :: "string \<Rightarrow> string + string"
  path_join :: "string \<Rightarrow> string \<Rightarrow> string"
  md5_hex :: "string \<Rightarrow> string"

text \<open>\<open>filename.search('[_-]')\<close>: the index of the first delimiter, \<open>-1\<close> without one.\<close>

definition is_delimiter :: "char \<Rightarrow> bool" where
  "is_delimiter c = (c = CHR ''_'' \<or> c = CHR ''-'')"

definition search_delimiter :: "string \<Rightarrow> int" where
  "search_delimiter s =
     (if list_ex is_delimiter s then int (length (takeWhile (\<lambda>c. \<not> is_delimiter c) s)) else - 1)"

text \<open>
  \<open>Number.parseInt(string)\<close> with no radix, after ECMAScript: leading white space is
  dropped, a sign is read, a \<open>0x\<close> prefix selects radix 16, the longest prefix of
  digits is converted, and an empty one gives \<open>NaN\<close>. A \<open>char\<close> is one code unit
  below 256, so the white space beyond Latin-1 does not occur.
\<close>

definition is_white_space :: "char \<Rightarrow> bool" where
  "is_white_space c = (of_char c \<in> {9, 10, 11, 12, 13, 32, 160 :: nat})"

definition digit_value :: "char \<Rightarrow> nat option" where
  "digit_value c =
     (let n = of_char c :: nat in
      if 48 \<le> n \<and> n \<le> 57 then Some (n - 48)
      else if 97 \<le> n \<and> n \<le> 122 then Some (n - 87)
      else if 65 \<le> n \<and> n \<le> 90 then Some (n - 55)
      else None)"

definition is_digit :: "nat \<Rightarrow> char \<Rightarrow> bool" where
  "is_digit R c = (case digit_value c of None \<Rightarrow> False | Some v \<Rightarrow> v < R)"

fun digits_value :: "nat \<Rightarrow> string \<Rightarrow> int \<Rightarrow> int" where
  "digits_value R [] acc = acc"
| "digits_value R (c # cs) acc =
     digits_value R cs (acc * int R + int (case digit_value c of None \<Rightarrow> 0 | Some v \<Rightarrow> v))"

definition parseInt :: "string \<Rightarrow> number" where
  "parseInt str =
     (let s = dropWhile is_white_space str;
          sign = (if take 1 s = ''-'' then - 1 else 1);
          s1 = (if take 1 s = ''-'' \<or> take 1 s = ''+'' then drop 1 s else s);
          hex = (take 2 s1 = ''0x'' \<or> take 2 s1 = ''0X'');
          R = (if hex then 16 else 10);
          s2 = (if hex then drop 2 s1 else s1);
          Z = takeWhile (is_digit R) s2
      in if Z = [] then NaN else Num (sign * digits_value R Z 0))"

text \<open>
  The call inside the \<open>try\<close> of \<open>createMigrationItem\<close>. \<open>Number.parseInt\<close> reports
  a prefix it cannot read by returning \<open>NaN\<close>; it throws nothing, so the call always
  returns.
\<close>

definition try_parseInt :: "string \<Rightarrow> exn + number" where
  "try_parseInt idValue = Inr (parseInt idValue)"

text \<open>
  \<open>createMigrationItem\<close>. The \<open>catch\<close> around the call replaces whatever it
  catches by the "Can not parse ID" error.
\<close>

definition createMigrationItem :: "platform \<Rightarrow> string \<Rightarrow> string \<Rightarrow> exn + MigrationItem" where
  "createMigrationItem p dirName fname =
     (let filePath = path_join p dirName fname;
          delimiterIndex = search_delimiter fname
      in if delimiterIndex < 1 then Inl PatternNoDelimiter
         else
           let idValue = take (nat delimiterIndex) fname
           in case try_parseInt idValue of
                Inl e \<Rightarrow> Inl (PatternCannotParseId idValue)
              | Inr i \<Rightarrow>
                  (case readFile p filePath of
                     Inl m \<Rightarrow> Inl (FsError m)
                   | Inr d \<Rightarrow>
                       Inr \<lparr>sid = i, filename = fname, data = d,
                             hash = md5_hex p (fname @ d)\<rparr>))"

text \<open>The \<open>for\<close> loop of \<open>findMigrationScripts\<close>, pushing onto \<open>result\<close>.\<close>

fun collect_items :: "platform \<Rightarrow> string \<Rightarrow> string list \<Rightarrow> MigrationItem list \<Rightarrow> exn + MigrationItem list" where
  "collect_items p dirPath [] result = Inr result"
| "collect_items p dirPath (file # files) result =
     (case createMigrationItem p dirPath file of
        Inl e \<Rightarrow> Inl e
      | Inr migrationItem \<Rightarrow> collect_items p dirPath files (result @ [migrationItem]))"

definition read_scripts :: "platform \<Rightarrow> string \<Rightarrow> exn + MigrationItem list" where
  "read_scripts p dirPath =
     (case readDir p dirPath of
        Inl m \<Rightarrow> Inl (FsError m)
      | Inr files \<Rightarrow> collect_items p dirPath files [])"

section \<open>The database behind the driver\<close>

text \<open>
  One row of the \<open>migrations\<close> table, as the engine reads it: the serial \<open>id\<close>, the
  unique \<open>filename\<close> and the nullable \<open>hash\<close>. The \<open>timestamp\<close> column is set by the
  database and never read by the engine; it is left out.
\<close>

record MigrationEntry =
  eid :: int
  efilename :: string
  ehash :: "string option"

text \<open>
  The statements the engine sends, each with its parameters: the three fixed queries on
  the tracking table, the body of a migration script, and the transaction commands.
\<close>

datatype statement =
    SELECT_EXISTING_MIGRATIONS
  | INSERT_MIGRATION_QUERY string string
  | UPDATE_MIGRATION_ROW_HASH string string
  | Script string
  | START_TRANSACTION
  | COMMIT
  | ROLLBACK

datatype call = PoolQuery statement | PoolConnect | ClientQuery statement | ClientRelease

datatype message =
    StartMigration
  | ScriptsNotFound string
  | MigrationComplete
  | UnableToCompleteMigration
  | AllApplied
  | WithoutTransactionBlock
  | ScriptComplete string
  | UnableToExecuteScript string
  | SearchStarted string
  | UnableToFindScripts
  | SearchCompleted nat
  | StatementStarted
  | StatementExecuted
  | StatementFailed

datatype log_entry = LogInfo message | LogDebug message | LogError message "exn option"

text \<open>
  Everything outside the process. \<open>table\<close> holds the rows of \<open>migrations\<close> and
  \<open>nextval\<close> the next value of its \<open>BIGSERIAL\<close> sequence. The effect of a script on
  the user's schema is abstracted to the list \<open>applied\<close> of the script bodies whose
  effect is durable; scripts are taken not to touch the tracking table. \<open>tx\<close> holds the
  bodies staged by the open transaction of the checked-out connection. \<open>outcomes\<close>
  schedules the driver: each call to it consumes the head, \<open>Some m\<close> making the call
  throw an error with message \<open>m\<close>; an exhausted schedule lets every call through.
  \<open>trace\<close> records the calls made to the driver and \<open>logged\<close> the calls made to the
  logger client, in order.
\<close>

record world =
  table :: "MigrationEntry list"
  nextval :: int
  applied :: "string list"
  tx :: "string list option"
  outcomes :: "string option list"
  trace :: "call list"
  logged :: "log_entry list"

definition info :: "message \<Rightarrow> world \<Rightarrow> world" where
  "info m w = w\<lparr>logged := logged w @ [LogInfo m]\<rparr>"

definition debug :: "message \<Rightarrow> world \<Rightarrow> world" where
  "debug m w = w\<lparr>logged := logged w @ [LogDebug m]\<rparr>"

definition log_error :: "message \<Rightarrow> exn option \<Rightarrow> world \<Rightarrow> world" where
  "log_error m cause w = w\<lparr>logged := logged w @ [LogError m cause]\<rparr>"

definition next_outcome :: "call \<Rightarrow> world \<Rightarrow> string option \<times> world" where
  "next_outcome c w =
     (let w1 = w\<lparr>trace := trace w @ [c]\<rparr>
      in case outcomes w1 of
           [] \<Rightarrow> (None, w1)
         | oc # rest \<Rightarrow> (oc, w1\<lparr>outcomes := rest\<rparr>))"

text \<open>
  A statement run on its own (autocommit). \<open>SELECT ... ORDER BY id\<close> returns the rows
  by ascending id. \<open>INSERT\<close> draws the id from the sequence (which advances even when
  the insert fails) and violates a key when the id or the filename is already present.
\<close>

fun autocommit_effect :: "statement \<Rightarrow> world \<Rightarrow> (string + MigrationEntry list) \<times> world" where
  "autocommit_effect SELECT_EXISTING_MIGRATIONS w = (Inr (sort_key eid (table w)), w)"
| "autocommit_effect (INSERT_MIGRATION_QUERY f h) w =
     (let i = nextval w; w1 = w\<lparr>nextval := i + 1\<rparr>
      in if list_ex (\<lambda>e. eid e = i \<or> efilename e = f) (table w)
         then (Inl ''duplicate key value violates unique constraint'', w1)
         else (Inr [], w1\<lparr>table := table w @ [\<lparr>eid = i, efilename = f, ehash = Some h\<rparr>]\<rparr>))"
| "autocommit_effect (UPDATE_MIGRATION_ROW_HASH h f) w =
     (Inr [], w\<lparr>table := map (\<lambda>e. if efilename e = f then e\<lparr>ehash := Some h\<rparr> else e) (table w)\<rparr>)"
| "autocommit_effect (Script body) w = (Inr [], w\<lparr>applied := applied w @ [body]\<rparr>)"
| "autocommit_effect START_TRANSACTION w = (Inr [], w)"
| "autocommit_effect COMMIT w = (Inr [], w)"
| "autocommit_effect ROLLBACK w = (Inr [], w)"

text \<open>
  A statement on the checked-out connection: a script body inside a transaction is
  staged and becomes durable at \<open>COMMIT\<close>; \<open>ROLLBACK\<close> drops what was staged.
\<close>

fun client_effect :: "statement \<Rightarrow> world \<Rightarrow> (string + MigrationEntry list) \<times> world" where
  "client_effect START_TRANSACTION w = (Inr [], w\<lparr>tx := Some []\<rparr>)"
| "client_effect (Script body) w =
     (case tx w of
        None \<Rightarrow> (Inr [], w\<lparr>applied := applied w @ [body]\<rparr>)
      | Some staged \<Rightarrow> (Inr [], w\<lparr>tx := Some (staged @ [body])\<rparr>))"
| "client_effect COMMIT w =
     (case tx w of
        None \<Rightarrow> (Inr [], w)
      | Some staged \<Rightarrow> (Inr [], w\<lparr>applied := applied w @ staged, tx := None\<rparr>))"
| "client_effect ROLLBACK w = (Inr [], w\<lparr>tx := None\<rparr>)"
| "client_effect st w = autocommit_effect st w"

text \<open>The driver: \<open>pool.query\<close>, \<open>pool.connect\<close>, \<open>client.query\<close>, \<open>client.release\<close>.\<close>

definition pool_query :: "statement \<Rightarrow> world \<Rightarrow> (string + MigrationEntry list) \<times> world" where
  "pool_query st w =
     (case next_outcome (PoolQuery st) w of
        (Some m, w1) \<Rightarrow> (Inl m, w1)
      | (None, w1) \<Rightarrow> autocommit_effect st w1)"

definition pool_connect :: "world \<Rightarrow> (string + unit) \<times> world" where
  "pool_connect w =
     (case next_outcome PoolConnect w of
        (Some m, w1) \<Rightarrow> (Inl m, w1)
      | (None, w1) \<Rightarrow> (Inr (), w1\<lparr>tx := None\<rparr>))"

definition client_query :: "statement \<Rightarrow> world \<Rightarrow> (string + MigrationEntry list) \<times> world" where
  "client_query st w =
     (case next_outcome (ClientQuery st) w of
        (Some m, w1) \<Rightarrow> (Inl m, w1)
      | (None, w1) \<Rightarrow> client_effect st w1)"

definition client_release :: "world \<Rightarrow> world" where
  "client_release w = w\<lparr>trace := trace w @ [ClientRelease]\<rparr>"

section \<open>Persistence Gateway: database/databaseClient.ts\<close>

record ExecutionResult =
  isSuccess :: bool
  result :: "MigrationEntry list option"
  error :: "string option"

definition toSuccess :: "MigrationEntry list \<Rightarrow> ExecutionResult" where
  "toSuccess queryResult = \<lparr>isSuccess = True, result = Some queryResult, error = None\<rparr>"

definition toError :: "string \<Rightarrow> ExecutionResult" where
  "toError m = \<lparr>isSuccess = False, result = None, error = Some m\<rparr>"

text \<open>
  Both calls return \<open>Inr\<close> of an \<open>ExecutionResult\<close> when they return, and \<open>Inl\<close> of the
  exception when one leaves the call.
\<close>

definition execute :: "statement \<Rightarrow> world \<Rightarrow> (exn + ExecutionResult) \<times> world" where
  "execute st w =
     (case pool_query st w of
        (Inr queryResult, w1) \<Rightarrow> (Inr (toSuccess queryResult), w1)
      | (Inl m, w1) \<Rightarrow> (Inr (toError m), w1))"

text \<open>The \<open>try\<close> block of \<open>executeInTransaction\<close>.\<close>

definition transaction_block :: "statement \<Rightarrow> world \<Rightarrow> (string + MigrationEntry list) \<times> world" where
  "transaction_block st w =
     (case client_query START_TRANSACTION (debug StatementStarted w) of
        (Inl m, w1) \<Rightarrow> (Inl m, w1)
      | (Inr _, w1) \<Rightarrow>
          (case client_query st w1 of
             (Inl m, w2) \<Rightarrow> (Inl m, w2)
           | (Inr queryResult, w2) \<Rightarrow>
               (case client_query COMMIT w2 of
                  (Inl m, w3) \<Rightarrow> (Inl m, w3)
                | (Inr _, w3) \<Rightarrow> (Inr queryResult, debug StatementExecuted w3))))"

text \<open>
  \<open>pool.connect()\<close> is awaited before the \<open>try\<close>, and \<open>ROLLBACK\<close> is awaited inside the
  \<open>catch\<close>: an error of either leaves the call. \<open>finally\<close> releases the connection on
  every path that acquired it.
\<close>

definition executeInTransaction :: "statement \<Rightarrow> world \<Rightarrow> (exn + ExecutionResult) \<times> world" where
  "executeInTransaction st w =
     (case pool_connect w of
        (Inl m, w1) \<Rightarrow> (Inl (DbError m), w1)
      | (Inr _, w1) \<Rightarrow>
          (case transaction_block st w1 of
             (Inr queryResult, w2) \<Rightarrow> (Inr (toSuccess queryResult), client_release w2)
           | (Inl m, w2) \<Rightarrow>
               (case client_query ROLLBACK w2 of
                  (Inl m', w3) \<Rightarrow> (Inl (DbError m'), client_release w3)
                | (Inr _, w3) \<Rightarrow>
                    (Inr (toError m),
                     client_release (log_error StatementFailed (Some (DbError m)) w3)))))"

section \<open>Reconciliation Engine: migration/pgMigrationClient.ts\<close>

record PgMigrationClient =
  migrationPath :: string
  initialized :: bool

text \<open>The filename of the row that \<open>init\<close> inserts with id 0.\<close>

definition sentinel_filename :: string where
  "sentinel_filename = ''PgMigrationClient initialized''"

definition startsWith :: "string \<Rightarrow> string \<Rightarrow> bool" where
  "startsWith s p = (take (length p) s = p)"

text \<open>
  \<open>findMigrationScripts\<close> with its logger calls; \<open>read_scripts\<close> is the body of its
  \<open>try\<close>, whose error is logged and thrown again.
\<close>

definition findMigrationScripts ::
  "platform \<Rightarrow> string \<Rightarrow> world \<Rightarrow> (exn + MigrationItem list) \<times> world" where
  "findMigrationScripts p dirPath w =
     (let w1 = debug (SearchStarted dirPath) w
      in case read_scripts p dirPath of
           Inl e \<Rightarrow> (Inl e, log_error UnableToFindScripts None w1)
         | Inr res \<Rightarrow> (Inr res, debug (SearchCompleted (length res)) w1))"

text \<open>
  \<open>migrationScripts.sort((left, right) => left.id - right.id)\<close>. A comparator result
  of \<open>NaN\<close> counts as 0. The sort is stable; it is written as an insertion sort, which
  on ids that are all integers is the one ascending stable order. With a \<open>NaN\<close> id the
  comparator is inconsistent and the language leaves the order to the implementation:
  the insertion sort is then one of the possible orders and need not be the one that
  the engine's host produces.
\<close>

definition compare_ids :: "MigrationItem \<Rightarrow> MigrationItem \<Rightarrow> int" where
  "compare_ids left right = (case js_sub (sid left) (sid right) of NaN \<Rightarrow> 0 | Num d \<Rightarrow> d)"

fun insert_script :: "MigrationItem \<Rightarrow> MigrationItem list \<Rightarrow> MigrationItem list" where
  "insert_script x [] = [x]"
| "insert_script x (y # ys) =
     (if compare_ids x y \<le> 0 then x # y # ys else y # insert_script x ys)"

definition sort_scripts :: "MigrationItem list \<Rightarrow> MigrationItem list" where
  "sort_scripts xs = foldr insert_script xs []"

text \<open>
  The \<open>forEach\<close> of \<open>getMigrationsScripts\<close>; \<open>currentId\<close> is \<open>None\<close> while it is
  \<open>undefined\<close>.
\<close>

fun check_sequence :: "number option \<Rightarrow> MigrationItem list \<Rightarrow> exn + unit" where
  "check_sequence currentId [] = Inr ()"
| "check_sequence currentId (script # rest) =
     (case currentId of
        None \<Rightarrow> check_sequence (Some (sid script)) rest
      | Some c \<Rightarrow>
          if js_sub (sid script) c \<noteq> Num 1 then Inl (InvalidSequence (filename script))
          else check_sequence (Some (sid script)) rest)"

definition getMigrationsScripts ::
  "platform \<Rightarrow> PgMigrationClient \<Rightarrow> world \<Rightarrow> (exn + MigrationItem list) \<times> world" where
  "getMigrationsScripts p c w =
     (case findMigrationScripts p (migrationPath c) w of
        (Inl e, w1) \<Rightarrow> (Inl e, w1)
      | (Inr found, w1) \<Rightarrow>
          (let migrationScripts = sort_scripts found
           in case check_sequence None migrationScripts of
                Inl e \<Rightarrow> (Inl e, w1)
              | Inr _ \<Rightarrow> (Inr migrationScripts, w1)))"

definition doExecuteQuery ::
  "statement \<Rightarrow> world \<Rightarrow> (exn + MigrationEntry list option) \<times> world" where
  "doExecuteQuery st w =
     (case execute st w of
        (Inl e, w1) \<Rightarrow> (Inl e, w1)
      | (Inr r, w1) \<Rightarrow>
          if isSuccess r then (Inr (result r), w1)
          else (Inl (DbError (case error r of None \<Rightarrow> [] | Some m \<Rightarrow> m)), w1))"

definition getPersistedMigrations :: "world \<Rightarrow> (exn + MigrationEntry list) \<times> world" where
  "getPersistedMigrations w =
     (case doExecuteQuery SELECT_EXISTING_MIGRATIONS w of
        (Inl e, w1) \<Rightarrow> (Inl e, w1)
      | (Inr queryResult, w1) \<Rightarrow> (Inr (case queryResult of None \<Rightarrow> [] | Some rows \<Rightarrow> rows), w1))"

definition validateScriptId :: "MigrationItem \<Rightarrow> number \<Rightarrow> exn + unit" where
  "validateScriptId migrationScript lastMigrationEntryId =
     (if js_sub (sid migrationScript) lastMigrationEntryId \<noteq> Num 1
      then Inl (InvalidScriptId (filename migrationScript) (js_add lastMigrationEntryId (Num 1)))
      else Inr ())"

text \<open>The result of the \<open>INSERT\<close> is awaited and dropped.\<close>

definition addMigrationEntry ::
  "ExecutionResult \<Rightarrow> string \<Rightarrow> string \<Rightarrow> world \<Rightarrow> (exn + unit) \<times> world" where
  "addMigrationEntry migrationResult fname h w =
     (if isSuccess migrationResult
      then (case execute (INSERT_MIGRATION_QUERY fname h) w of
              (Inl e, w1) \<Rightarrow> (Inl e, w1)
            | (Inr _, w1) \<Rightarrow> (Inr (), w1))
      else (Inl (DbError (case error migrationResult of None \<Rightarrow> [] | Some m \<Rightarrow> m)), w))"

text \<open>
  The \<open>try\<close> block of \<open>executeMigrationScript\<close>: first the \<open>if\<close> that assigns
  \<open>migrationResult\<close>, then \<open>addMigrationEntry\<close> and the logger call.
\<close>

definition dispatch_script :: "MigrationItem \<Rightarrow> world \<Rightarrow> (exn + ExecutionResult) \<times> world" where
  "dispatch_script migrationScript w =
     (let useAutocommit = startsWith (data migrationScript) ''--AUTOCOMMIT''
      in if useAutocommit
         then execute (Script (data migrationScript)) (info WithoutTransactionBlock w)
         else executeInTransaction (Script (data migrationScript)) w)"

definition run_script :: "MigrationItem \<Rightarrow> world \<Rightarrow> (exn + unit) \<times> world" where
  "run_script migrationScript w =
     (case dispatch_script migrationScript w of
        (Inl e, w1) \<Rightarrow> (Inl e, w1)
      | (Inr migrationResult, w1) \<Rightarrow>
          (case addMigrationEntry migrationResult (filename migrationScript)
                  (hash migrationScript) w1 of
             (Inl e, w2) \<Rightarrow> (Inl e, w2)
           | (Inr _, w2) \<Rightarrow> (Inr (), info (ScriptComplete (filename migrationScript)) w2)))"

definition executeMigrationScript :: "MigrationItem \<Rightarrow> world \<Rightarrow> (exn + unit) \<times> world" where
  "executeMigrationScript migrationScript w =
     (case run_script migrationScript w of
        (Inl e, w1) \<Rightarrow>
          (Inl e, log_error (UnableToExecuteScript (filename migrationScript)) (Some e) w1)
      | (Inr u, w1) \<Rightarrow> (Inr u, w1))"

text \<open>The result of the \<open>UPDATE\<close> is awaited and dropped as well.\<close>

definition updateScriptHash ::
  "MigrationItem \<Rightarrow> string option \<Rightarrow> world \<Rightarrow> (exn + unit) \<times> world" where
  "updateScriptHash migrationScript entryHash w =
     (case entryHash of
        None \<Rightarrow>
          (case execute (UPDATE_MIGRATION_ROW_HASH (hash migrationScript)
                  (filename migrationScript)) w of
             (Inl e, w1) \<Rightarrow> (Inl e, w1)
           | (Inr _, w1) \<Rightarrow> (Inr (), w1))
      | Some h \<Rightarrow>
          if h \<noteq> hash migrationScript then (Inl (ScriptModified (filename migrationScript)), w)
          else (Inr (), w))"

text \<open>
  The \<open>for\<close> loop of \<open>doMigration\<close>: the entries read before the loop, the scripts
  still to visit, \<open>lastMigrationEntryId\<close>, \<open>missedMigrationScripts\<close>. It returns
  the missed scripts when it runs to its end. The source pushes a script onto the
  missed ones before it validates and executes it; the list is read only after the
  loop, so the model extends it once the script is through.
\<close>

fun migration_loop ::
  "MigrationEntry list \<Rightarrow> MigrationItem list \<Rightarrow> number \<Rightarrow> MigrationItem list \<Rightarrow> world
     \<Rightarrow> (exn + MigrationItem list) \<times> world" where
  "migration_loop migrationEntries [] lastMigrationEntryId missed w = (Inr missed, w)"
| "migration_loop migrationEntries (migrationScript # rest) lastMigrationEntryId missed w =
     (case find (\<lambda>entry. efilename entry = filename migrationScript) migrationEntries of
        None \<Rightarrow>
          (case validateScriptId migrationScript lastMigrationEntryId of
             Inl e \<Rightarrow> (Inl e, w)
           | Inr _ \<Rightarrow>
               (case executeMigrationScript migrationScript w of
                  (Inl e, w1) \<Rightarrow> (Inl e, w1)
                | (Inr _, w1) \<Rightarrow>
                    migration_loop migrationEntries rest (sid migrationScript)
                      (missed @ [migrationScript]) w1))
      | Some migrationEntry \<Rightarrow>
          (case updateScriptHash migrationScript (ehash migrationEntry) w of
             (Inl e, w1) \<Rightarrow> (Inl e, w1)
           | (Inr _, w1) \<Rightarrow>
               migration_loop migrationEntries rest lastMigrationEntryId missed w1))"

text \<open>
  \<open>migrationEntries[migrationEntries.length - 1].id\<close> on an empty array reads \<open>id\<close> of
  \<open>undefined\<close>, a \<open>TypeError\<close>.
\<close>

definition doMigration :: "MigrationItem list \<Rightarrow> world \<Rightarrow> (exn + unit) \<times> world" where
  "doMigration migrationScripts w =
     (case getPersistedMigrations w of
        (Inl e, w1) \<Rightarrow> (Inl e, w1)
      | (Inr migrationEntries, w1) \<Rightarrow>
          (case migrationEntries of
             [] \<Rightarrow> (Inl TypeError, w1)
           | _ # _ \<Rightarrow>
               (case migration_loop migrationEntries migrationScripts
                       (Num (eid (last migrationEntries))) [] w1 of
                  (Inl e, w2) \<Rightarrow> (Inl e, w2)
                | (Inr missed, w2) \<Rightarrow>
                    (Inr (), if missed = [] then info AllApplied w2 else w2))))"

text \<open>The \<open>try\<close> block of \<open>startMigration\<close>.\<close>

definition migration_body ::
  "platform \<Rightarrow> PgMigrationClient \<Rightarrow> world \<Rightarrow> (exn + unit) \<times> world" where
  "migration_body p c w =
     (let w0 = info StartMigration w
      in if \<not> initialized c then (Inl NotInitialized, w0)
         else
           (case getMigrationsScripts p c w0 of
              (Inl e, w1) \<Rightarrow> (Inl e, w1)
            | (Inr migrationScripts, w1) \<Rightarrow>
                (case (if migrationScripts = []
                       then (Inr (), info (ScriptsNotFound (migrationPath c)) w1)
                       else doMigration migrationScripts w1) of
                   (Inl e, w2) \<Rightarrow> (Inl e, w2)
                 | (Inr _, w2) \<Rightarrow> (Inr (), info MigrationComplete w2))))"

text \<open>
  \<open>startMigration\<close> returns nothing and throws nothing: an error of the run reaches
  the caller only as the last entry logged.
\<close>

definition startMigration :: "platform \<Rightarrow> PgMigrationClient \<Rightarrow> world \<Rightarrow> world" where
  "startMigration p c w =
     (case migration_body p c w of
        (Inl e, w1) \<Rightarrow> log_error UnableToCompleteMigration (Some e) w1
      | (Inr _, w1) \<Rightarrow> w1)"

section \<open>Auxiliary notions and a running example\<close>

text \<open>The next call to the driver does not throw.\<close>

definition next_call_ok :: "world \<Rightarrow> bool" where
  "next_call_ok w = (case outcomes w of [] \<Rightarrow> True | oc # _ \<Rightarrow> oc = None)"

text \<open>The driver throws at none of the calls to come.\<close>

definition quiet :: "world \<Rightarrow> bool" where
  "quiet w = list_all (\<lambda>oc. oc = None) (outcomes w)"

text \<open>The integer a script id stands for, and the rows a run inserts for a list of
  scripts when the sequence is at \<open>i\<close>.\<close>

fun int_of :: "number \<Rightarrow> int" where
  "int_of (Num n) = n"
| "int_of NaN = 0"

fun new_entries :: "int \<Rightarrow> MigrationItem list \<Rightarrow> MigrationEntry list" where
  "new_entries i [] = []"
| "new_entries i (s # ss) =
     \<lparr>eid = i, efilename = filename s, ehash = Some (hash s)\<rparr> # new_entries (i + 1) ss"

text \<open>
  The scenario of the specification: a directory \<open>sql\<close> holding \<open>1_init.sql\<close> and
  \<open>2_add_col.sql\<close>, listed out of order, the second script carrying the autocommit
  marker. The digest of the example platform is the identity.
\<close>

definition example_platform :: platform where
  "example_platform =
     \<lparr>readDir = (\<lambda>d. if d = ''sql'' then Inr [''2_add_col.sql'', ''1_init.sql'']
                      else Inl ''ENOENT''),
      readFile = (\<lambda>f. if f = ''sql/1_init.sql'' then Inr ''CREATE TABLE t (a int);''
                       else if f = ''sql/2_add_col.sql''
                       then Inr ''--AUTOCOMMIT ALTER TABLE t ADD b int;''
                       else Inl ''ENOENT''),
      path_join = (\<lambda>d f. d @ ''/'' @ f),
      md5_hex = (\<lambda>s. s)\<rparr>"

definition example_client :: PgMigrationClient where
  "example_client = \<lparr>migrationPath = ''sql'', initialized = True\<rparr>"

definition script1 :: MigrationItem where
  "script1 = \<lparr>sid = Num 1, filename = ''1_init.sql'', data = ''CREATE TABLE t (a int);'',
               hash = ''1_init.sqlCREATE TABLE t (a int);''\<rparr>"

definition script2 :: MigrationItem where
  "script2 = \<lparr>sid = Num 2, filename = ''2_add_col.sql'',
               data = ''--AUTOCOMMIT ALTER TABLE t ADD b int;'',
               hash = ''2_add_col.sql--AUTOCOMMIT ALTER TABLE t ADD b int;''\<rparr>"

definition example_found :: "MigrationItem list" where
  "example_found = [script2, script1]"

definition sentinel :: MigrationEntry where
  "sentinel = \<lparr>eid = 0, efilename = sentinel_filename, ehash = None\<rparr>"

definition empty_world :: world where
  "empty_world = \<lparr>table = [], nextval = 1, applied = [], tx = None, outcomes = [],
                   trace = [], logged = []\<rparr>"

definition fresh_world :: world where
  "fresh_world = empty_world\<lparr>table := [sentinel]\<rparr>"

text \<open>
  Histories for the example directory: \<open>1_init.sql\<close> recorded under a digest that is
  no longer the script's; \<open>1_init.sql\<close> recorded before digests were kept; both
  scripts recorded under digests that are no longer theirs; and \<open>1_init.sql\<close>
  recorded under a stale digest with \<open>2_add_col.sql\<close> recorded before digests were
  kept.
\<close>

definition edited_world :: world where
  "edited_world =
     fresh_world\<lparr>table := [sentinel, \<lparr>eid = 1, efilename = ''1_init.sql'',
                                       ehash = Some ''0123456789abcdef''\<rparr>],
                 nextval := 2\<rparr>"

definition legacy_world :: world where
  "legacy_world =
     fresh_world\<lparr>table := [sentinel, \<lparr>eid = 1, efilename = ''1_init.sql'', ehash = None\<rparr>],
                 nextval := 2\<rparr>"

definition twice_edited_world :: world where
  "twice_edited_world =
     fresh_world\<lparr>table := [sentinel,
                            \<lparr>eid = 1, efilename = ''1_init.sql'',
                             ehash = Some ''0123456789abcdef''\<rparr>,
                            \<lparr>eid = 2, efilename = ''2_add_col.sql'',
                             ehash = Some ''fedcba9876543210''\<rparr>],
                 nextval := 3\<rparr>"

definition edited_legacy_world :: world where
  "edited_legacy_world =
     fresh_world\<lparr>table := [sentinel,
                            \<lparr>eid = 1, efilename = ''1_init.sql'',
                             ehash = Some ''0123456789abcdef''\<rparr>,
                            \<lparr>eid = 2, efilename = ''2_add_col.sql'', ehash = None\<rparr>],
                 nextval := 3\<rparr>"

text \<open>A directory whose ids are 1, 2 and 4.\<close>

definition gap_platform :: platform where
  "gap_platform =
     \<lparr>readDir = (\<lambda>d. Inr [''1_a.sql'', ''4_d.sql'', ''2_b.sql'']),
      readFile = (\<lambda>f. Inr ''SELECT 1;''),
      path_join = (\<lambda>d f. d @ ''/'' @ f),
      md5_hex = (\<lambda>s. s)\<rparr>"

definition gap_found :: "MigrationItem list" where
  "gap_found =
     [\<lparr>sid = Num 1, filename = ''1_a.sql'', data = ''SELECT 1;'', hash = ''1_a.sqlSELECT 1;''\<rparr>,
      \<lparr>sid = Num 4, filename = ''4_d.sql'', data = ''SELECT 1;'', hash = ''4_d.sqlSELECT 1;''\<rparr>,
      \<lparr>sid = Num 2, filename = ''2_b.sql'', data = ''SELECT 1;'', hash = ''2_b.sqlSELECT 1;''\<rparr>]"

text \<open>
  A database with only the sentinel row whose driver lets four calls through and
  then loses the connection.
\<close>

definition flaky_world :: world where
  "flaky_world = fresh_world\<lparr>outcomes := [None, None, None, None, Some ''connection terminated'']\<rparr>"

text \<open>A database whose third driver call, the script's statement, is rejected.\<close>

definition rejecting_world :: world where
  "rejecting_world = fresh_world\<lparr>outcomes := [None, None, Some ''syntax error'']\<rparr>"

section \<open>Properties\<close>

subsection \<open>Script Locator\<close>

lemma parseInt_letters: "parseInt ''abc'' = NaN"
  by (simp add: parseInt_def is_white_space_def is_digit_def digit_value_def)

text \<open>
  C5. The claim: a filename whose prefix before the delimiter does not parse as a
  non-negative integer makes discovery fail with the "cannot parse ID" error. The code
  does otherwise. For \<open>abc_x.sql\<close> the delimiter is at index 3, the prefix \<open>abc\<close>
  parses to \<open>NaN\<close> without an exception, and whenever the file can be read a
  \<open>MigrationItem\<close> with id \<open>NaN\<close> is produced; the only error left is the one of
  reading the file. And no filename at all makes \<open>createMigrationItem\<close> fail with
  the "cannot parse ID" error.
\<close>

theorem createMigrationItem_unparsable_prefix:
  "createMigrationItem p dir ''abc_x.sql'' =
     (case readFile p (path_join p dir ''abc_x.sql'') of
        Inl m \<Rightarrow> Inl (FsError m)
      | Inr d \<Rightarrow>
          Inr \<lparr>sid = NaN, filename = ''abc_x.sql'', data = d,
                hash = md5_hex p (''abc_x.sql'' @ d)\<rparr>) \<and>
   createMigrationItem p dir f \<noteq> Inl (PatternCannotParseId v)"
proof
  show "createMigrationItem p dir ''abc_x.sql'' =
     (case readFile p (path_join p dir ''abc_x.sql'') of
        Inl m \<Rightarrow> Inl (FsError m)
      | Inr d \<Rightarrow>
          Inr \<lparr>sid = NaN, filename = ''abc_x.sql'', data = d,
                hash = md5_hex p (''abc_x.sql'' @ d)\<rparr>)"
    using parseInt_letters
    by (simp add: createMigrationItem_def try_parseInt_def search_delimiter_def
        is_delimiter_def split: sum.splits)
  show "createMigrationItem p dir f \<noteq> Inl (PatternCannotParseId v)"
    by (simp add: createMigrationItem_def try_parseInt_def Let_def split: sum.splits)
qed

lemma createMigrationItem_Inr:
  assumes "createMigrationItem p d f = Inr item"
  shows "filename item = f \<and> 1 \<le> search_delimiter f \<and>
         sid item = parseInt (take (nat (search_delimiter f)) f)"
  using assms
  by (auto simp: createMigrationItem_def try_parseInt_def Let_def
      split: if_splits sum.splits)

lemma collect_items_wellformed:
  assumes "collect_items p d files acc = Inr res"
    and "\<forall>s\<in>set acc. 1 \<le> search_delimiter (filename s) \<and>
           sid s = parseInt (take (nat (search_delimiter (filename s))) (filename s))"
  shows "\<forall>s\<in>set res. 1 \<le> search_delimiter (filename s) \<and>
           sid s = parseInt (take (nat (search_delimiter (filename s))) (filename s))"
  using assms
proof (induction files arbitrary: acc)
  case Nil
  then show ?case by simp
next
  case (Cons f files)
  from Cons.prems(1) obtain item where
    i: "createMigrationItem p d f = Inr item" and
    r: "collect_items p d files (acc @ [item]) = Inr res"
    by (auto split: sum.splits)
  from createMigrationItem_Inr [OF i] Cons.prems(2)
  have "\<forall>s\<in>set (acc @ [item]). 1 \<le> search_delimiter (filename s) \<and>
      sid s = parseInt (take (nat (search_delimiter (filename s))) (filename s))"
    by auto
  from Cons.IH [OF r this] show ?case .
qed

lemma read_scripts_wellformed:
  assumes "read_scripts p d = Inr found"
  shows "\<forall>s\<in>set found. 1 \<le> search_delimiter (filename s) \<and>
           sid s = parseInt (take (nat (search_delimiter (filename s))) (filename s))"
proof -
  from assms obtain files where "collect_items p d files [] = Inr found"
    by (auto simp: read_scripts_def split: sum.splits)
  from collect_items_wellformed [OF this] show ?thesis by simp
qed

lemma sentinel_filename_no_delimiter: "search_delimiter sentinel_filename = - 1"
  by (simp add: search_delimiter_def sentinel_filename_def is_delimiter_def)

subsection \<open>The driver\<close>

lemma next_call_ok_update [simp]:
  "next_call_ok (w\<lparr>logged := l\<rparr>) = next_call_ok w"
  "next_call_ok (w\<lparr>trace := t\<rparr>) = next_call_ok w"
  "next_call_ok (w\<lparr>table := tb\<rparr>) = next_call_ok w"
  "next_call_ok (w\<lparr>applied := a\<rparr>) = next_call_ok w"
  "next_call_ok (w\<lparr>nextval := n\<rparr>) = next_call_ok w"
  "next_call_ok (w\<lparr>tx := x\<rparr>) = next_call_ok w"
  by (simp_all add: next_call_ok_def)

lemma next_outcome_ok:
  "next_call_ok w \<Longrightarrow>
   next_outcome c w = (None, w\<lparr>trace := trace w @ [c], outcomes := tl (outcomes w)\<rparr>)"
  by (cases "outcomes w") (auto simp: next_outcome_def next_call_ok_def)

lemma not_next_call_ok: "\<not> next_call_ok w \<Longrightarrow> \<exists>msg later. outcomes w = Some msg # later"
  by (auto simp: next_call_ok_def split: list.splits)

lemma pool_query_ok:
  "next_call_ok w \<Longrightarrow>
   pool_query st w =
     autocommit_effect st (w\<lparr>trace := trace w @ [PoolQuery st], outcomes := tl (outcomes w)\<rparr>)"
  by (simp add: pool_query_def next_outcome_ok)

lemma pool_query_thrown:
  "outcomes w = Some msg # later \<Longrightarrow>
   pool_query st w = (Inl msg, w\<lparr>trace := trace w @ [PoolQuery st], outcomes := later\<rparr>)"
  by (simp add: pool_query_def next_outcome_def)

lemma client_query_ok:
  "next_call_ok w \<Longrightarrow>
   client_query st w =
     client_effect st (w\<lparr>trace := trace w @ [ClientQuery st], outcomes := tl (outcomes w)\<rparr>)"
  by (simp add: client_query_def next_outcome_ok)

lemma pool_connect_ok:
  "next_call_ok w \<Longrightarrow>
   pool_connect w =
     (Inr (), w\<lparr>trace := trace w @ [PoolConnect], outcomes := tl (outcomes w), tx := None\<rparr>)"
  by (simp add: pool_connect_def next_outcome_ok)

lemma client_query_Inr:
  assumes "client_query st w = (Inr r, w')"
  shows "client_effect st (w\<lparr>trace := trace w @ [ClientQuery st], outcomes := tl (outcomes w)\<rparr>)
           = (Inr r, w')"
proof (cases "next_call_ok w")
  case True
  with assms show ?thesis by (simp add: client_query_def next_outcome_ok)
next
  case False
  then obtain msg later where "outcomes w = Some msg # later"
    using not_next_call_ok by blast
  with assms show ?thesis by (simp add: client_query_def next_outcome_def)
qed

lemma pool_connect_Inr:
  assumes "pool_connect w = (Inr u, w')"
  shows "w' = w\<lparr>trace := trace w @ [PoolConnect], outcomes := tl (outcomes w), tx := None\<rparr>"
proof (cases "next_call_ok w")
  case True
  with assms show ?thesis by (simp add: pool_connect_def next_outcome_ok)
next
  case False
  then obtain msg later where "outcomes w = Some msg # later"
    using not_next_call_ok by blast
  with assms show ?thesis by (simp add: pool_connect_def next_outcome_def)
qed

lemma trace_autocommit_effect: "trace (snd (autocommit_effect st w)) = trace w"
  by (cases st) (simp_all add: Let_def)

lemma trace_client_effect: "trace (snd (client_effect st w)) = trace w"
  by (cases st) (simp_all add: Let_def split: option.splits)

lemma trace_next_outcome: "trace (snd (next_outcome c w)) = trace w @ [c]"
  by (cases "outcomes w") (simp_all add: next_outcome_def)

lemma trace_pool_query: "trace (snd (pool_query st w)) = trace w @ [PoolQuery st]"
  using trace_next_outcome [of "PoolQuery st" w]
  by (auto simp: pool_query_def trace_autocommit_effect split: prod.splits option.splits)

lemma trace_client_query: "trace (snd (client_query st w)) = trace w @ [ClientQuery st]"
  using trace_next_outcome [of "ClientQuery st" w]
  by (auto simp: client_query_def trace_client_effect split: prod.splits option.splits)

lemma trace_pool_connect: "trace (snd (pool_connect w)) = trace w @ [PoolConnect]"
  using trace_next_outcome [of PoolConnect w]
  by (auto simp: pool_connect_def split: prod.splits option.splits)

lemma list_all_tl: "list_all P xs \<Longrightarrow> list_all P (tl xs)"
  by (cases xs) auto

lemma quiet_update [simp]:
  "quiet (w\<lparr>logged := l\<rparr>) = quiet w"
  "quiet (w\<lparr>trace := t\<rparr>) = quiet w"
  "quiet (w\<lparr>table := tb\<rparr>) = quiet w"
  "quiet (w\<lparr>applied := a\<rparr>) = quiet w"
  "quiet (w\<lparr>nextval := n\<rparr>) = quiet w"
  "quiet (w\<lparr>tx := x\<rparr>) = quiet w"
  by (simp_all add: quiet_def)

lemma quiet_outcomes [simp]:
  "quiet (w\<lparr>outcomes := os\<rparr>) = list_all (\<lambda>oc. oc = None) os"
  by (simp add: quiet_def)

lemma quiet_tl_outcomes [simp]: "quiet w \<Longrightarrow> list_all (\<lambda>oc. oc = None) (tl (outcomes w))"
  by (simp add: quiet_def list_all_tl)

lemma quiet_next_call_ok: "quiet w \<Longrightarrow> next_call_ok w"
  by (cases "outcomes w") (auto simp: quiet_def next_call_ok_def)

lemma quiet_tl: "quiet w \<Longrightarrow> quiet (w\<lparr>outcomes := tl (outcomes w)\<rparr>)"
  by (simp add: quiet_def list_all_tl)

lemma pool_connect_quiet:
  "quiet w \<Longrightarrow>
   \<exists>w'. pool_connect w = (Inr (), w') \<and> tx w' = None \<and> table w' = table w \<and>
        applied w' = applied w \<and> nextval w' = nextval w \<and> quiet w'"
  by (simp add: pool_connect_ok quiet_next_call_ok)

lemma client_query_start_quiet:
  "quiet w \<Longrightarrow>
   \<exists>w'. client_query START_TRANSACTION w = (Inr [], w') \<and> tx w' = Some [] \<and>
        table w' = table w \<and> applied w' = applied w \<and> nextval w' = nextval w \<and> quiet w'"
  by (simp add: client_query_ok quiet_next_call_ok)

lemma client_query_script_quiet:
  "quiet w \<Longrightarrow> tx w = Some staged \<Longrightarrow>
   \<exists>w'. client_query (Script b) w = (Inr [], w') \<and> tx w' = Some (staged @ [b]) \<and>
        table w' = table w \<and> applied w' = applied w \<and> nextval w' = nextval w \<and> quiet w'"
  by (simp add: client_query_ok quiet_next_call_ok)

lemma client_query_commit_quiet:
  "quiet w \<Longrightarrow> tx w = Some staged \<Longrightarrow>
   \<exists>w'. client_query COMMIT w = (Inr [], w') \<and> table w' = table w \<and>
        applied w' = applied w @ staged \<and> nextval w' = nextval w \<and> quiet w'"
  by (simp add: client_query_ok quiet_next_call_ok)

subsection \<open>Persistence Gateway\<close>

lemma execute_returns: "\<exists>r. fst (execute st w) = Inr r"
  by (simp add: execute_def split: prod.splits sum.splits)

text \<open>
  C4. The claim: neither \<open>execute\<close> nor \<open>executeInTransaction\<close> lets an exception
  reach the caller, errors of the rollback included. \<open>execute\<close> indeed always returns
  (\<open>execute_returns\<close>), but \<open>executeInTransaction\<close> does not: when the statement
  fails with \<open>m\<close> and the \<open>ROLLBACK\<close> then fails with \<open>m'\<close>, the error \<open>m'\<close> leaves the
  call; and when no connection can be acquired, that error leaves the call too.
\<close>

theorem executeInTransaction_raises:
  "fst (executeInTransaction st (w\<lparr>outcomes := None # None # Some m # Some m' # later\<rparr>))
     = Inl (DbError m') \<and>
   fst (executeInTransaction st (w\<lparr>outcomes := Some m # later\<rparr>)) = Inl (DbError m)"
  by (simp add: executeInTransaction_def pool_connect_def next_outcome_def
      transaction_block_def client_query_def debug_def)

lemma execute_Inr: "\<exists>r w'. execute st w = (Inr r, w')"
  by (simp add: execute_def split: prod.splits sum.splits)

lemma trace_execute: "trace (snd (execute st w)) = trace w @ [PoolQuery st]"
  using trace_pool_query [of st w]
  by (auto simp: execute_def split: prod.splits sum.splits)

lemma trace_transaction_block:
  "\<exists>cs. trace (snd (transaction_block st w)) = trace w @ cs \<and>
        set cs \<subseteq> {ClientQuery START_TRANSACTION, ClientQuery st, ClientQuery COMMIT}"
proof -
  let ?w0 = "debug StatementStarted w"
  obtain r1 w1 where q1: "client_query START_TRANSACTION ?w0 = (r1, w1)" by force
  obtain r2 w2 where q2: "client_query st w1 = (r2, w2)" by force
  obtain r3 w3 where q3: "client_query COMMIT w2 = (r3, w3)" by force
  have t1: "trace w1 = trace w @ [ClientQuery START_TRANSACTION]"
    using trace_client_query [of START_TRANSACTION ?w0] q1 by (simp add: debug_def)
  have t2: "trace w2 = trace w @ [ClientQuery START_TRANSACTION, ClientQuery st]"
    using trace_client_query [of st w1] q2 t1 by simp
  have t3: "trace w3 = trace w @ [ClientQuery START_TRANSACTION, ClientQuery st, ClientQuery COMMIT]"
    using trace_client_query [of COMMIT w2] q3 t2 by simp
  have "trace (snd (transaction_block st w)) \<in> {trace w1, trace w2, trace w3}"
    using q1 q2 q3 by (auto simp: transaction_block_def debug_def split: sum.splits)
  then show ?thesis
    using t1 t2 t3 by auto
qed

lemma trace_executeInTransaction:
  "\<exists>cs. trace (snd (executeInTransaction st w)) = trace w @ PoolConnect # cs \<and>
        set cs \<subseteq> {ClientQuery START_TRANSACTION, ClientQuery st, ClientQuery COMMIT,
                    ClientQuery ROLLBACK, ClientRelease}"
proof -
  obtain r1 w1 where c: "pool_connect w = (r1, w1)" by force
  have t1: "trace w1 = trace w @ [PoolConnect]"
    using trace_pool_connect [of w] c by simp
  obtain r2 w2 where b: "transaction_block st w1 = (r2, w2)" by force
  from trace_transaction_block [of st w1] b obtain cs where cs: "trace w2 = trace w1 @ cs"
    "set cs \<subseteq> {ClientQuery START_TRANSACTION, ClientQuery st, ClientQuery COMMIT}"
    by auto
  obtain r3 w3 where r: "client_query ROLLBACK w2 = (r3, w3)" by force
  have t3: "trace w3 = trace w2 @ [ClientQuery ROLLBACK]"
    using trace_client_query [of ROLLBACK w2] r by simp
  have "trace (snd (executeInTransaction st w)) \<in>
      {trace w1, trace w2 @ [ClientRelease], trace w3 @ [ClientRelease]}"
    using c b r
    by (auto simp: executeInTransaction_def client_release_def log_error_def split: sum.splits)
  then consider "trace (snd (executeInTransaction st w)) = trace w @ PoolConnect # []"
    | "trace (snd (executeInTransaction st w)) = trace w @ PoolConnect # (cs @ [ClientRelease])"
    | "trace (snd (executeInTransaction st w)) =
        trace w @ PoolConnect # (cs @ [ClientQuery ROLLBACK, ClientRelease])"
    using t1 cs(1) t3 by auto
  then show ?thesis
  proof cases
    case 1
    then show ?thesis by (intro exI[of _ "[]"]) simp
  next
    case 2
    then show ?thesis using cs(2) by (intro exI[of _ "cs @ [ClientRelease]"]) auto
  next
    case 3
    then show ?thesis using cs(2)
      by (intro exI[of _ "cs @ [ClientQuery ROLLBACK, ClientRelease]"]) auto
  qed
qed

lemma execute_Script_success:
  assumes "execute (Script b) w = (Inr r, w')" and "isSuccess r"
  shows "applied w' = applied w @ [b] \<and> table w' = table w \<and> nextval w' = nextval w"
proof (cases "next_call_ok w")
  case True
  with assms show ?thesis by (auto simp: execute_def pool_query_ok)
next
  case False
  then obtain msg later where "outcomes w = Some msg # later"
    using not_next_call_ok by blast
  with assms show ?thesis by (auto simp: execute_def pool_query_thrown toError_def)
qed

lemma transaction_block_Inr:
  assumes "transaction_block (Script b) w = (Inr q, w')" and "tx w = None"
  shows "applied w' = applied w @ [b] \<and> table w' = table w \<and> nextval w' = nextval w"
proof -
  from assms(1) obtain r1 w1 r2 w2 r3 w3 where
    q1: "client_query START_TRANSACTION (debug StatementStarted w) = (Inr r1, w1)" and
    q2: "client_query (Script b) w1 = (Inr r2, w2)" and
    q3: "client_query COMMIT w2 = (Inr r3, w3)" and
    w': "w' = debug StatementExecuted w3"
    by (auto simp: transaction_block_def split: prod.splits sum.splits)
  from client_query_Inr [OF q1]
  have w1: "tx w1 = Some []" "applied w1 = applied w" "table w1 = table w" "nextval w1 = nextval w"
    by (auto simp: debug_def)
  from client_query_Inr [OF q2] w1
  have w2: "tx w2 = Some [b]" "applied w2 = applied w" "table w2 = table w" "nextval w2 = nextval w"
    by auto
  from client_query_Inr [OF q3] w2
  have "applied w3 = applied w @ [b]" "table w3 = table w" "nextval w3 = nextval w"
    by auto
  then show ?thesis by (simp add: w' debug_def)
qed

lemma executeInTransaction_success:
  assumes "executeInTransaction (Script b) w = (Inr r, w')" and "isSuccess r"
  shows "applied w' = applied w @ [b] \<and> table w' = table w \<and> nextval w' = nextval w"
proof -
  from assms obtain u w1 q w2 where
    c: "pool_connect w = (Inr u, w1)" and
    b: "transaction_block (Script b) w1 = (Inr q, w2)" and
    w': "w' = client_release w2"
    by (auto simp: executeInTransaction_def toError_def split: prod.splits sum.splits)
  from pool_connect_Inr [OF c]
  have "tx w1 = None" "applied w1 = applied w" "table w1 = table w" "nextval w1 = nextval w"
    by simp_all
  with transaction_block_Inr [OF b] show ?thesis
    by (simp add: w' client_release_def)
qed

lemma execute_insert_failure:
  assumes "execute (INSERT_MIGRATION_QUERY f h) w = (Inr r, w')" and "\<not> isSuccess r"
  shows "table w' = table w \<and> applied w' = applied w"
proof (cases "next_call_ok w")
  case True
  with assms show ?thesis
    by (auto simp: execute_def pool_query_ok Let_def toSuccess_def split: if_splits)
next
  case False
  then obtain msg later where "outcomes w = Some msg # later"
    using not_next_call_ok by blast
  with assms show ?thesis by (auto simp: execute_def pool_query_thrown)
qed

lemma execute_insert_ok:
  assumes "next_call_ok w"
    and "\<not> list_ex (\<lambda>e. eid e = nextval w \<or> efilename e = f) (table w)"
  shows "execute (INSERT_MIGRATION_QUERY f h) w =
           (Inr (toSuccess []),
            w\<lparr>trace := trace w @ [PoolQuery (INSERT_MIGRATION_QUERY f h)],
              outcomes := tl (outcomes w),
              nextval := nextval w + 1,
              table := table w @ [\<lparr>eid = nextval w, efilename = f, ehash = Some h\<rparr>]\<rparr>)"
  using assms by (simp add: execute_def pool_query_ok Let_def)

lemma execute_Script_quiet:
  "quiet w \<Longrightarrow>
   \<exists>w'. execute (Script b) w = (Inr (toSuccess []), w') \<and> table w' = table w \<and>
        applied w' = applied w @ [b] \<and> nextval w' = nextval w \<and> quiet w'"
  by (simp add: execute_def pool_query_ok quiet_next_call_ok quiet_tl)

lemma executeInTransaction_quiet:
  assumes "quiet w"
  shows "\<exists>w'. executeInTransaction (Script b) w = (Inr (toSuccess []), w') \<and>
           table w' = table w \<and> applied w' = applied w @ [b] \<and> nextval w' = nextval w \<and>
           quiet w'"
proof -
  from pool_connect_quiet [OF assms] obtain w1 where
    c: "pool_connect w = (Inr (), w1)" and
    w1: "tx w1 = None" "table w1 = table w" "applied w1 = applied w" "nextval w1 = nextval w"
      "quiet w1"
    by blast
  have "quiet (debug StatementStarted w1)" using w1(5) by (simp add: debug_def)
  from client_query_start_quiet [OF this] obtain w2 where
    s: "client_query START_TRANSACTION (debug StatementStarted w1) = (Inr [], w2)" and
    w2: "tx w2 = Some []" "table w2 = table w" "applied w2 = applied w" "nextval w2 = nextval w"
      "quiet w2"
    using w1 by (auto simp: debug_def)
  from client_query_script_quiet [OF w2(5) w2(1), of b] obtain w3 where
    q: "client_query (Script b) w2 = (Inr [], w3)" and
    w3: "tx w3 = Some [b]" "table w3 = table w" "applied w3 = applied w" "nextval w3 = nextval w"
      "quiet w3"
    using w2 by auto
  from client_query_commit_quiet [OF w3(5) w3(1)] obtain w4 where
    m: "client_query COMMIT w3 = (Inr [], w4)" and
    w4: "table w4 = table w" "applied w4 = applied w @ [b]" "nextval w4 = nextval w" "quiet w4"
    using w3 by auto
  have "transaction_block (Script b) w1 = (Inr [], debug StatementExecuted w4)"
    by (simp add: transaction_block_def s q m)
  then have "executeInTransaction (Script b) w =
      (Inr (toSuccess []), client_release (debug StatementExecuted w4))"
    by (simp add: executeInTransaction_def c)
  then show ?thesis
    using w4 by (simp add: client_release_def debug_def)
qed

lemma getPersistedMigrations_ok:
  "next_call_ok w \<Longrightarrow>
   getPersistedMigrations w =
     (Inr (sort_key eid (table w)),
      w\<lparr>trace := trace w @ [PoolQuery SELECT_EXISTING_MIGRATIONS],
        outcomes := tl (outcomes w)\<rparr>)"
  by (simp add: getPersistedMigrations_def doExecuteQuery_def execute_def pool_query_def
      next_outcome_ok toSuccess_def)

lemma getPersistedMigrations_thrown:
  "outcomes w = Some msg # later \<Longrightarrow>
   getPersistedMigrations w =
     (Inl (DbError msg),
      w\<lparr>trace := trace w @ [PoolQuery SELECT_EXISTING_MIGRATIONS], outcomes := later\<rparr>)"
  by (simp add: getPersistedMigrations_def doExecuteQuery_def execute_def pool_query_def
      next_outcome_def toError_def)

subsection \<open>Discovery, sorting and the sequence check\<close>

lemma findMigrationScripts_found:
  "read_scripts p d = Inr found \<Longrightarrow>
   findMigrationScripts p d w =
     (Inr found,
      w\<lparr>logged := logged w @ [LogDebug (SearchStarted d),
                               LogDebug (SearchCompleted (length found))]\<rparr>)"
  by (simp add: findMigrationScripts_def debug_def)

lemma getMigrationsScripts_found:
  "read_scripts p (migrationPath c) = Inr found \<Longrightarrow>
   getMigrationsScripts p c w =
     (case check_sequence None (sort_scripts found) of
        Inl e \<Rightarrow> Inl e
      | Inr _ \<Rightarrow> Inr (sort_scripts found),
      w\<lparr>logged := logged w @ [LogDebug (SearchStarted (migrationPath c)),
                               LogDebug (SearchCompleted (length found))]\<rparr>)"
  by (simp add: getMigrationsScripts_def findMigrationScripts_found split: sum.splits)

lemma insert_script_not_Nil: "insert_script x ys \<noteq> []"
  by (cases ys) auto

lemma sort_scripts_Nil_iff: "sort_scripts xs = [] \<longleftrightarrow> xs = []"
  by (cases xs) (auto simp: sort_scripts_def insert_script_not_Nil)

lemma set_insert_script: "set (insert_script x ys) = insert x (set ys)"
  by (induction ys) auto

lemma set_sort_scripts: "set (sort_scripts xs) = set xs"
  by (induction xs) (auto simp: sort_scripts_def set_insert_script)

lemma length_insert_script: "length (insert_script x ys) = Suc (length ys)"
  by (induction ys) auto

lemma length_sort_scripts: "length (sort_scripts xs) = length xs"
  by (induction xs) (auto simp: sort_scripts_def length_insert_script)

lemma compare_ids_num:
  "sid x \<noteq> NaN \<Longrightarrow> sid y \<noteq> NaN \<Longrightarrow>
   (compare_ids x y \<le> 0) = (int_of (sid x) \<le> int_of (sid y))"
  by (cases "sid x"; cases "sid y") (simp_all add: compare_ids_def)

lemma sorted_insert_script:
  "\<forall>s\<in>set (x # ys). sid s \<noteq> NaN \<Longrightarrow> sorted (map (\<lambda>s. int_of (sid s)) ys) \<Longrightarrow>
   sorted (map (\<lambda>s. int_of (sid s)) (insert_script x ys))"
proof (induction ys)
  case Nil
  then show ?case by simp
next
  case (Cons y ys)
  show ?case
  proof (cases "compare_ids x y \<le> 0")
    case True
    then have "int_of (sid x) \<le> int_of (sid y)"
      using Cons.prems(1) by (simp add: compare_ids_num)
    with True Cons.prems(2) show ?thesis by auto
  next
    case False
    then have "int_of (sid y) \<le> int_of (sid x)"
      using Cons.prems(1) by (simp add: compare_ids_num)
    moreover have "sorted (map (\<lambda>s. int_of (sid s)) (insert_script x ys))"
      using Cons by simp
    ultimately show ?thesis
      using False Cons.prems(2) by (auto simp: set_insert_script)
  qed
qed

lemma sorted_sort_scripts:
  "\<forall>s\<in>set xs. sid s \<noteq> NaN \<Longrightarrow> sorted (map (\<lambda>s. int_of (sid s)) (sort_scripts xs))"
proof (induction xs)
  case Nil
  then show ?case by (simp add: sort_scripts_def)
next
  case (Cons x xs)
  then have "sorted (map (\<lambda>s. int_of (sid s)) (sort_scripts xs))" by simp
  moreover have "\<forall>s\<in>set (x # sort_scripts xs). sid s \<noteq> NaN"
    using Cons.prems by (simp add: set_sort_scripts)
  ultimately have "sorted (map (\<lambda>s. int_of (sid s)) (insert_script x (sort_scripts xs)))"
    by (rule sorted_insert_script [rotated])
  then show ?case by (simp add: sort_scripts_def)
qed

lemma distinct_insert_script:
  "distinct (map f (insert_script x ys)) = distinct (map f (x # ys))"
  by (induction ys) (auto simp: set_insert_script)

lemma distinct_sort_scripts: "distinct (map f (sort_scripts xs)) = distinct (map f xs)"
proof (induction xs)
  case Nil
  then show ?case by (simp add: sort_scripts_def)
next
  case (Cons x xs)
  have "distinct (map f (sort_scripts (x # xs))) =
      distinct (map f (x # sort_scripts xs))"
    by (simp add: sort_scripts_def distinct_insert_script)
  then show ?case using Cons by (simp add: set_sort_scripts)
qed

lemma sort_scripts_contiguous:
  assumes "distinct (map sid found)" and "set (map sid found) = Num ` {1..int N}"
  shows "map sid (sort_scripts found) = map Num [1..int N]"
proof -
  define ids where "ids = map (\<lambda>s. int_of (sid s)) (sort_scripts found)"
  have num: "\<forall>s\<in>set found. \<exists>n. sid s = Num n"
    using assms(2) by auto
  then have nn: "\<forall>s\<in>set found. sid s \<noteq> NaN" by auto
  have eq: "map sid (sort_scripts found) = map Num ids"
    using num by (auto simp: ids_def set_sort_scripts)
  have s: "sorted ids"
    unfolding ids_def using nn by (rule sorted_sort_scripts)
  have "distinct (map sid (sort_scripts found))"
    using assms(1) by (simp only: distinct_sort_scripts)
  then have "distinct (map Num ids)" by (simp only: eq)
  then have d: "distinct ids" by (rule distinct_map [THEN iffD1, THEN conjunct1])
  have "set (map Num ids) = set (map sid (sort_scripts found))" by (simp only: eq)
  also have "\<dots> = set (map sid found)" by (simp add: set_sort_scripts)
  finally have "Num ` set ids = Num ` {1..int N}" using assms(2) by simp
  then have "set ids = {1..int N}"
    by (simp add: inj_image_eq_iff inj_on_def)
  then have "set ids = set [1..int N]" by simp
  with s d have "ids = [1..int N]"
    by (intro sorted_distinct_set_unique) simp_all
  with eq show ?thesis by simp
qed

lemma check_sequence_first_gap:
  "\<exists>k. Suc k < length xs \<and> js_sub (sid (xs ! Suc k)) (sid (xs ! k)) \<noteq> Num 1 \<Longrightarrow>
   \<exists>i. Suc i < length xs \<and> js_sub (sid (xs ! Suc i)) (sid (xs ! i)) \<noteq> Num 1 \<and>
       (\<forall>j<i. js_sub (sid (xs ! Suc j)) (sid (xs ! j)) = Num 1) \<and>
       check_sequence None xs = Inl (InvalidSequence (filename (xs ! Suc i)))"
proof (induction xs rule: induct_list012)
  case 1
  then show ?case by simp
next
  case (2 x)
  then show ?case by simp
next
  case (3 x y zs)
  show ?case
  proof (cases "js_sub (sid y) (sid x) = Num 1")
    case False
    then have "Suc 0 < length (x # y # zs) \<and>
        js_sub (sid ((x # y # zs) ! Suc 0)) (sid ((x # y # zs) ! 0)) \<noteq> Num 1 \<and>
        (\<forall>j<0. js_sub (sid ((x # y # zs) ! Suc j)) (sid ((x # y # zs) ! j)) = Num 1) \<and>
        check_sequence None (x # y # zs) = Inl (InvalidSequence (filename ((x # y # zs) ! Suc 0)))"
      by simp
    then show ?thesis by blast
  next
    case True
    from "3.prems" obtain k where k: "Suc k < length (x # y # zs)"
      "js_sub (sid ((x # y # zs) ! Suc k)) (sid ((x # y # zs) ! k)) \<noteq> Num 1"
      by blast
    with True obtain k' where "k = Suc k'" by (cases k) auto
    with k have "\<exists>k. Suc k < length (y # zs) \<and>
        js_sub (sid ((y # zs) ! Suc k)) (sid ((y # zs) ! k)) \<noteq> Num 1"
      by auto
    from "3.IH"(2) [OF this] obtain i where i: "Suc i < length (y # zs)"
      "js_sub (sid ((y # zs) ! Suc i)) (sid ((y # zs) ! i)) \<noteq> Num 1"
      "\<forall>j<i. js_sub (sid ((y # zs) ! Suc j)) (sid ((y # zs) ! j)) = Num 1"
      "check_sequence None (y # zs) = Inl (InvalidSequence (filename ((y # zs) ! Suc i)))"
      by blast
    have "\<forall>j<Suc i. js_sub (sid ((x # y # zs) ! Suc j)) (sid ((x # y # zs) ! j)) = Num 1"
    proof (intro allI impI)
      fix j assume "j < Suc i"
      then show "js_sub (sid ((x # y # zs) ! Suc j)) (sid ((x # y # zs) ! j)) = Num 1"
        using True i(3) by (cases j) auto
    qed
    moreover have "check_sequence None (x # y # zs)
        = Inl (InvalidSequence (filename ((x # y # zs) ! Suc (Suc i))))"
      using True i(4) by simp
    moreover have "Suc (Suc i) < length (x # y # zs)" using i(1) by simp
    moreover have "js_sub (sid ((x # y # zs) ! Suc (Suc i))) (sid ((x # y # zs) ! Suc i)) \<noteq> Num 1"
      using i(2) by simp
    ultimately show ?thesis by blast
  qed
qed

text \<open>
  A list of two or more scripts that holds a \<open>NaN\<close> id fails the check in whatever
  order it comes: the subtraction next to the \<open>NaN\<close> is \<open>NaN\<close>, which is not 1.
\<close>

lemma check_sequence_NaN:
  assumes "i < length xs" and "sid (xs ! i) = NaN" and "2 \<le> length xs"
  shows "\<exists>j. Suc j < length xs \<and>
           check_sequence None xs = Inl (InvalidSequence (filename (xs ! Suc j)))"
proof -
  have "\<exists>k. Suc k < length xs \<and> js_sub (sid (xs ! Suc k)) (sid (xs ! k)) \<noteq> Num 1"
  proof (cases i)
    case 0
    then have "js_sub (sid (xs ! Suc 0)) (sid (xs ! 0)) = NaN"
      using assms(2) by (cases "sid (xs ! Suc 0)") simp_all
    then show ?thesis using assms(3) by (intro exI[of _ 0]) simp
  next
    case (Suc k)
    then have "js_sub (sid (xs ! Suc k)) (sid (xs ! k)) = NaN"
      using assms(2) by simp
    then show ?thesis using assms(1) Suc by (intro exI[of _ k]) simp
  qed
  from check_sequence_first_gap [OF this] show ?thesis by blast
qed

lemma check_sequence_contiguous:
  "map sid xs = map Num [k + 1..k + int (length xs)] \<Longrightarrow>
   check_sequence (Some (Num k)) xs = Inr ()"
proof (induction xs arbitrary: k)
  case Nil
  then show ?case by simp
next
  case (Cons x xs)
  have "k + 1 \<le> k + int (length (x # xs))" by simp
  from upto_rec1 [OF this]
  have "[k + 1..k + int (length (x # xs))] = (k + 1) # [k + 1 + 1..k + 1 + int (length xs)]"
    by (simp add: algebra_simps)
  with Cons.prems have "sid x = Num (k + 1)"
    "map sid xs = map Num [k + 1 + 1..k + 1 + int (length xs)]"
    by simp_all
  with Cons.IH [of "k + 1"] show ?case by simp
qed

lemma check_sequence_from_one:
  assumes "map sid xs = map Num [1..int (length xs)]"
  shows "check_sequence None xs = Inr ()"
proof (cases xs)
  case Nil
  then show ?thesis by simp
next
  case (Cons x ys)
  have "(1::int) \<le> int (length (x # ys))" by simp
  from upto_rec1 [OF this]
  have "[1..int (length (x # ys))] = 1 # [1 + 1..1 + int (length ys)]"
    by (simp add: algebra_simps)
  with assms Cons have "sid x = Num 1" "map sid ys = map Num [1 + 1..1 + int (length ys)]"
    by simp_all
  with check_sequence_contiguous [of ys 1] Cons show ?thesis by simp
qed

subsection \<open>The running example\<close>

lemma example_client_fields:
  "initialized example_client" "migrationPath example_client = ''sql''"
  by (simp_all add: example_client_def)

lemma fresh_world_fields:
  "table fresh_world = [sentinel]" "nextval fresh_world = 1" "applied fresh_world = []"
  "tx fresh_world = None" "outcomes fresh_world = []" "trace fresh_world = []"
  "logged fresh_world = []"
  by (simp_all add: fresh_world_def empty_world_def)

lemma script1_fields:
  "sid script1 = Num 1" "filename script1 = ''1_init.sql''"
  "data script1 = ''CREATE TABLE t (a int);''"
  "\<not> startsWith (data script1) ''--AUTOCOMMIT''"
  by (simp_all add: script1_def startsWith_def)

lemma script2_fields:
  "sid script2 = Num 2" "filename script2 = ''2_add_col.sql''"
  "data script2 = ''--AUTOCOMMIT ALTER TABLE t ADD b int;''"
  "startsWith (data script2) ''--AUTOCOMMIT''"
  by (simp_all add: script2_def startsWith_def)

lemma example_read: "read_scripts example_platform ''sql'' = Inr example_found"
  by (simp add: read_scripts_def example_platform_def example_found_def script1_def
      script2_def createMigrationItem_def try_parseInt_def search_delimiter_def
      is_delimiter_def parseInt_def
      is_white_space_def is_digit_def digit_value_def)

lemma example_sorted: "sort_scripts example_found = [script1, script2]"
  by (simp add: sort_scripts_def example_found_def script1_def script2_def compare_ids_def)

lemma example_sequence: "check_sequence None (sort_scripts example_found) = Inr ()"
  by (simp add: example_sorted) (simp add: script1_def script2_def)

lemma example_length: "length example_found = 2"
  by (simp add: example_found_def)

lemma example_discovery:
  "getMigrationsScripts example_platform example_client w =
     (Inr [script1, script2],
      w\<lparr>logged := logged w @ [LogDebug (SearchStarted ''sql''),
                               LogDebug (SearchCompleted 2)]\<rparr>)"
proof -
  have "read_scripts example_platform (migrationPath example_client) = Inr example_found"
    by (simp add: example_client_def example_read)
  from getMigrationsScripts_found [OF this, of w]
  have "getMigrationsScripts example_platform example_client w =
      (Inr (sort_scripts example_found),
       w\<lparr>logged := logged w @ [LogDebug (SearchStarted (migrationPath example_client)),
                                LogDebug (SearchCompleted (length example_found))]\<rparr>)"
    unfolding example_sequence by simp
  then show ?thesis
    by (simp add: example_sorted example_length example_client_def)
qed

lemma first_run:
  "startMigration example_platform example_client fresh_world =
     fresh_world\<lparr>
       table := [sentinel,
                 \<lparr>eid = 1, efilename = ''1_init.sql'', ehash = Some (hash script1)\<rparr>,
                 \<lparr>eid = 2, efilename = ''2_add_col.sql'', ehash = Some (hash script2)\<rparr>],
       nextval := 3,
       applied := [data script1, data script2],
       trace := [PoolQuery SELECT_EXISTING_MIGRATIONS, PoolConnect,
                 ClientQuery START_TRANSACTION, ClientQuery (Script (data script1)),
                 ClientQuery COMMIT, ClientRelease,
                 PoolQuery (INSERT_MIGRATION_QUERY ''1_init.sql'' (hash script1)),
                 PoolQuery (Script (data script2)),
                 PoolQuery (INSERT_MIGRATION_QUERY ''2_add_col.sql'' (hash script2))],
       logged := [LogInfo StartMigration, LogDebug (SearchStarted ''sql''),
                  LogDebug (SearchCompleted 2), LogDebug StatementStarted,
                  LogDebug StatementExecuted, LogInfo (ScriptComplete ''1_init.sql''),
                  LogInfo WithoutTransactionBlock, LogInfo (ScriptComplete ''2_add_col.sql''),
                  LogInfo MigrationComplete]\<rparr>"
  by (simp add: startMigration_def migration_body_def example_discovery doMigration_def
      getPersistedMigrations_ok next_call_ok_def info_def fresh_world_def empty_world_def
      example_client_fields sentinel_def sentinel_filename_def script1_def script2_def
      validateScriptId_def executeMigrationScript_def run_script_def dispatch_script_def
      startsWith_def execute_def executeInTransaction_def transaction_block_def
      pool_query_def pool_connect_def client_query_def client_release_def next_outcome_def
      addMigrationEntry_def toSuccess_def debug_def)

lemma gap_read: "read_scripts gap_platform d = Inr gap_found"
  by (simp add: read_scripts_def gap_platform_def gap_found_def createMigrationItem_def
      try_parseInt_def
      search_delimiter_def is_delimiter_def parseInt_def is_white_space_def is_digit_def
      digit_value_def)

lemma gap_sorted: "sort_scripts gap_found = [gap_found ! 0, gap_found ! 2, gap_found ! 1]"
  by (simp add: sort_scripts_def gap_found_def compare_ids_def)

subsection \<open>Sequence gaps and an empty history\<close>

text \<open>
  C3. Let the engine be initialised and let every discovered id be an integer from 0
  to below \<open>2^53\<close>: the ids that a JavaScript number holds exactly, so that the prefix
  of a file name is read to the integer it writes, the subtractions are exact and the
  sort, with no \<open>NaN\<close> among the ids, yields the one ascending stable order. The sorted
  list is then the discovered scripts in ascending order of id. Let two neighbours of
  it have ids that differ by more than one. Then the run fails with the sequence
  error naming the first script, in that order, whose id is not its predecessor's
  plus one. The final world is the initial one with four more log entries, the last
  being the error: no call reaches the database, so the persisted records are those
  present before the run and nothing is executed.
\<close>

theorem startMigration_sequence_gap:
  assumes "initialized c"
    and "read_scripts p (migrationPath c) = Inr found"
    and "\<forall>s\<in>set found. \<exists>n. sid s = Num n \<and> 0 \<le> n \<and> n < 2 ^ 53"
    and "Suc k < length (sort_scripts found)"
    and "js_sub (sid (sort_scripts found ! Suc k)) (sid (sort_scripts found ! k)) = Num d"
    and "1 < d"
  shows "set (sort_scripts found) = set found \<and>
         length (sort_scripts found) = length found \<and>
         sorted (map (\<lambda>s. int_of (sid s)) (sort_scripts found)) \<and>
         (\<exists>i. Suc i < length (sort_scripts found) \<and>
           js_sub (sid (sort_scripts found ! Suc i)) (sid (sort_scripts found ! i)) \<noteq> Num 1 \<and>
           (\<forall>j<i. js_sub (sid (sort_scripts found ! Suc j)) (sid (sort_scripts found ! j)) = Num 1) \<and>
           startMigration p c w =
             w\<lparr>logged := logged w @
               [LogInfo StartMigration,
                LogDebug (SearchStarted (migrationPath c)),
                LogDebug (SearchCompleted (length found)),
                LogError UnableToCompleteMigration
                  (Some (InvalidSequence (filename (sort_scripts found ! Suc i))))]\<rparr>)"
proof -
  let ?xs = "sort_scripts found"
  have "\<forall>s\<in>set found. sid s \<noteq> NaN"
    using assms(3) by auto
  then have asc: "sorted (map (\<lambda>s. int_of (sid s)) ?xs)"
    by (rule sorted_sort_scripts)
  have "\<exists>k. Suc k < length ?xs \<and> js_sub (sid (?xs ! Suc k)) (sid (?xs ! k)) \<noteq> Num 1"
    using assms(4-6) by (intro exI[of _ k]) simp
  from check_sequence_first_gap [OF this] obtain i where i: "Suc i < length ?xs"
    "js_sub (sid (?xs ! Suc i)) (sid (?xs ! i)) \<noteq> Num 1"
    "\<forall>j<i. js_sub (sid (?xs ! Suc j)) (sid (?xs ! j)) = Num 1"
    "check_sequence None ?xs = Inl (InvalidSequence (filename (?xs ! Suc i)))"
    by blast
  have "startMigration p c w =
      w\<lparr>logged := logged w @
        [LogInfo StartMigration, LogDebug (SearchStarted (migrationPath c)),
         LogDebug (SearchCompleted (length found)),
         LogError UnableToCompleteMigration (Some (InvalidSequence (filename (?xs ! Suc i))))]\<rparr>"
    using assms(1,2) i(4)
    by (simp add: startMigration_def migration_body_def getMigrationsScripts_found
        log_error_def info_def)
  with i(1-3) have "\<exists>i. Suc i < length ?xs \<and>
      js_sub (sid (?xs ! Suc i)) (sid (?xs ! i)) \<noteq> Num 1 \<and>
      (\<forall>j<i. js_sub (sid (?xs ! Suc j)) (sid (?xs ! j)) = Num 1) \<and>
      startMigration p c w =
        w\<lparr>logged := logged w @
          [LogInfo StartMigration, LogDebug (SearchStarted (migrationPath c)),
           LogDebug (SearchCompleted (length found)),
           LogError UnableToCompleteMigration
             (Some (InvalidSequence (filename (?xs ! Suc i))))]\<rparr>"
    by blast
  with asc show ?thesis
    by (simp add: set_sort_scripts length_sort_scripts)
qed

theorem startMigration_sequence_gap_witness:
  "initialized example_client \<and>
   read_scripts gap_platform (migrationPath example_client) = Inr gap_found \<and>
   map sid gap_found = [Num 1, Num 4, Num 2] \<and>
   map sid (sort_scripts gap_found) = [Num 1, Num 2, Num 4] \<and>
   sorted (map (\<lambda>s. int_of (sid s)) (sort_scripts gap_found)) \<and>
   (\<exists>i. Suc i < length (sort_scripts gap_found) \<and>
      js_sub (sid (sort_scripts gap_found ! Suc i)) (sid (sort_scripts gap_found ! i)) \<noteq> Num 1 \<and>
      startMigration gap_platform example_client fresh_world =
        fresh_world\<lparr>logged := logged fresh_world @
          [LogInfo StartMigration,
           LogDebug (SearchStarted (migrationPath example_client)),
           LogDebug (SearchCompleted (length gap_found)),
           LogError UnableToCompleteMigration
             (Some (InvalidSequence (filename (sort_scripts gap_found ! Suc i))))]\<rparr>) \<and>
   startMigration gap_platform example_client fresh_world =
     fresh_world\<lparr>logged :=
       [LogInfo StartMigration, LogDebug (SearchStarted ''sql''), LogDebug (SearchCompleted 3),
        LogError UnableToCompleteMigration (Some (InvalidSequence ''4_d.sql''))]\<rparr>"
proof -
  have init: "initialized example_client" by (simp add: example_client_def)
  have raw: "map sid gap_found = [Num 1, Num 4, Num 2]"
    by (simp add: gap_found_def)
  have ids: "map sid (sort_scripts gap_found) = [Num 1, Num 2, Num 4]"
    by (simp add: gap_sorted) (simp add: gap_found_def)
  have safe: "\<forall>s\<in>set gap_found. \<exists>n. sid s = Num n \<and> 0 \<le> n \<and> n < 2 ^ 53"
    by (simp add: gap_found_def)
  have len: "Suc 1 < length (sort_scripts gap_found)" by (simp add: gap_sorted)
  have gap: "js_sub (sid (sort_scripts gap_found ! Suc 1)) (sid (sort_scripts gap_found ! 1)) = Num 2"
    by (simp add: gap_sorted) (simp add: gap_found_def)
  have chk: "check_sequence None (sort_scripts gap_found) = Inl (InvalidSequence ''4_d.sql'')"
    by (simp add: gap_sorted) (simp add: gap_found_def)
  have run: "startMigration gap_platform example_client fresh_world =
     fresh_world\<lparr>logged :=
       [LogInfo StartMigration, LogDebug (SearchStarted ''sql''), LogDebug (SearchCompleted 3),
        LogError UnableToCompleteMigration (Some (InvalidSequence ''4_d.sql''))]\<rparr>"
    using chk
    by (simp add: startMigration_def migration_body_def getMigrationsScripts_found gap_read
        log_error_def info_def example_client_def)
      (simp add: gap_found_def fresh_world_def empty_world_def)
  have d: "(1::int) < 2" by simp
  from startMigration_sequence_gap [OF init gap_read safe len gap d, of fresh_world]
  show ?thesis using init gap_read [of "migrationPath example_client"] raw ids run by blast
qed

text \<open>
  C10. \<open>doMigration\<close> reads the id of the last persisted entry without testing for an
  empty list. Let the engine be initialised, let at least one script be discovered
  and let the tracking table have no row. Then the run ends with an error logged at
  the top level, after the three log entries of the start and the search; no script is
  applied and the table stays empty. When the discovered ids pass the sequence check
  and the \<open>SELECT\<close> of the history goes through, the run does exactly this: it issues
  the \<open>SELECT\<close>, fails with the runtime \<open>TypeError\<close> of reading \<open>id\<close> of
  \<open>undefined\<close>, and logs it; otherwise the error is that of the sequence check or of
  the \<open>SELECT\<close>.
\<close>

theorem startMigration_empty_history:
  assumes "initialized c"
    and "read_scripts p (migrationPath c) = Inr found"
    and "found \<noteq> []"
    and "table w = []"
  shows "(\<exists>e. logged (startMigration p c w) =
              logged w @
                [LogInfo StartMigration,
                 LogDebug (SearchStarted (migrationPath c)),
                 LogDebug (SearchCompleted (length found)),
                 LogError UnableToCompleteMigration (Some e)]) \<and>
         applied (startMigration p c w) = applied w \<and>
         table (startMigration p c w) = [] \<and>
         (check_sequence None (sort_scripts found) = Inr () \<and> next_call_ok w \<longrightarrow>
          startMigration p c w =
            w\<lparr>trace := trace w @ [PoolQuery SELECT_EXISTING_MIGRATIONS],
              outcomes := tl (outcomes w),
              logged := logged w @
                [LogInfo StartMigration,
                 LogDebug (SearchStarted (migrationPath c)),
                 LogDebug (SearchCompleted (length found)),
                 LogError UnableToCompleteMigration (Some TypeError)]\<rparr>)"
proof -
  let ?w1 = "w\<lparr>logged := logged w @ [LogInfo StartMigration,
      LogDebug (SearchStarted (migrationPath c)), LogDebug (SearchCompleted (length found))]\<rparr>"
  consider e where "check_sequence None (sort_scripts found) = Inl e"
    | "check_sequence None (sort_scripts found) = Inr ()" "next_call_ok w"
    | msg later where "check_sequence None (sort_scripts found) = Inr ()"
        "outcomes w = Some msg # later"
    using not_next_call_ok [of w]
    by (cases "check_sequence None (sort_scripts found)") auto
  then show ?thesis
  proof cases
    case 1
    then have "startMigration p c w =
        ?w1\<lparr>logged := logged ?w1 @ [LogError UnableToCompleteMigration (Some e)]\<rparr>"
      using assms(1,2)
      by (simp add: startMigration_def migration_body_def getMigrationsScripts_found
          log_error_def info_def)
    with 1 assms(4) show ?thesis by simp
  next
    case 2
    then have "startMigration p c w =
        ?w1\<lparr>trace := trace w @ [PoolQuery SELECT_EXISTING_MIGRATIONS],
            outcomes := tl (outcomes w),
            logged := logged ?w1 @ [LogError UnableToCompleteMigration (Some TypeError)]\<rparr>"
      using assms
      by (simp add: startMigration_def migration_body_def getMigrationsScripts_found
          sort_scripts_Nil_iff doMigration_def getPersistedMigrations_ok
          log_error_def info_def)
    with 2 assms(4) show ?thesis by simp
  next
    case 3
    then have "\<not> next_call_ok w" by (simp add: next_call_ok_def)
    moreover have "startMigration p c w =
        ?w1\<lparr>trace := trace w @ [PoolQuery SELECT_EXISTING_MIGRATIONS],
            outcomes := later,
            logged := logged ?w1 @ [LogError UnableToCompleteMigration (Some (DbError msg))]\<rparr>"
      using assms 3
      by (simp add: startMigration_def migration_body_def getMigrationsScripts_found
          sort_scripts_Nil_iff doMigration_def getPersistedMigrations_thrown
          log_error_def info_def)
    ultimately show ?thesis using assms(4) by simp
  qed
qed

theorem startMigration_empty_history_witness:
  "initialized example_client \<and>
   read_scripts example_platform (migrationPath example_client) = Inr example_found \<and>
   check_sequence None (sort_scripts example_found) = Inr () \<and>
   example_found \<noteq> [] \<and> table empty_world = [] \<and> next_call_ok empty_world \<and>
   startMigration example_platform example_client empty_world =
     empty_world\<lparr>trace := [PoolQuery SELECT_EXISTING_MIGRATIONS],
       logged := [LogInfo StartMigration, LogDebug (SearchStarted ''sql''),
                  LogDebug (SearchCompleted 2),
                  LogError UnableToCompleteMigration (Some TypeError)]\<rparr>"
proof -
  have h: "initialized example_client"
    "read_scripts example_platform (migrationPath example_client) = Inr example_found"
    "example_found \<noteq> []" "table empty_world = []" "next_call_ok empty_world"
    by (simp_all add: example_client_def example_read empty_world_def next_call_ok_def
        example_found_def)
  from startMigration_empty_history [OF h(1-4)] example_sequence h(5)
  have "startMigration example_platform example_client empty_world =
      empty_world\<lparr>trace := trace empty_world @ [PoolQuery SELECT_EXISTING_MIGRATIONS],
        outcomes := tl (outcomes empty_world),
        logged := logged empty_world @
          [LogInfo StartMigration,
           LogDebug (SearchStarted (migrationPath example_client)),
           LogDebug (SearchCompleted (length example_found)),
           LogError UnableToCompleteMigration (Some TypeError)]\<rparr>"
    by blast
  then show ?thesis
    using h example_sequence
    by (simp add: empty_world_def example_client_def example_found_def)
qed

subsection \<open>Executing one script\<close>

lemma dispatch_script_success:
  assumes "dispatch_script s w = (Inr r, w1)" and "isSuccess r"
  shows "applied w1 = applied w @ [data s] \<and> table w1 = table w \<and> nextval w1 = nextval w"
proof (cases "startsWith (data s) ''--AUTOCOMMIT''")
  case True
  with assms have "execute (Script (data s)) (info WithoutTransactionBlock w) = (Inr r, w1)"
    by (simp add: dispatch_script_def)
  from execute_Script_success [OF this assms(2)] show ?thesis by (simp add: info_def)
next
  case False
  with assms have "executeInTransaction (Script (data s)) w = (Inr r, w1)"
    by (simp add: dispatch_script_def)
  from executeInTransaction_success [OF this assms(2)] show ?thesis .
qed

lemma executeMigrationScript_quiet:
  assumes "quiet w"
    and "\<not> list_ex (\<lambda>e. eid e = nextval w \<or> efilename e = filename s) (table w)"
  shows "\<exists>w'. executeMigrationScript s w = (Inr (), w') \<and>
           table w' = table w @ [\<lparr>eid = nextval w, efilename = filename s, ehash = Some (hash s)\<rparr>] \<and>
           applied w' = applied w @ [data s] \<and> nextval w' = nextval w + 1 \<and> quiet w'"
proof -
  have "\<exists>w1. dispatch_script s w = (Inr (toSuccess []), w1) \<and> table w1 = table w \<and>
      applied w1 = applied w @ [data s] \<and> nextval w1 = nextval w \<and> quiet w1"
  proof (cases "startsWith (data s) ''--AUTOCOMMIT''")
    case True
    have "quiet (info WithoutTransactionBlock w)" using assms(1) by (simp add: info_def)
    from execute_Script_quiet [OF this, of "data s"] True show ?thesis
      by (simp add: dispatch_script_def info_def)
  next
    case False
    with executeInTransaction_quiet [OF assms(1), of "data s"] show ?thesis
      by (simp add: dispatch_script_def)
  qed
  then obtain w1 where w1: "dispatch_script s w = (Inr (toSuccess []), w1)"
    "table w1 = table w" "applied w1 = applied w @ [data s]" "nextval w1 = nextval w" "quiet w1"
    by blast
  have ok: "next_call_ok w1"
    "\<not> list_ex (\<lambda>e. eid e = nextval w1 \<or> efilename e = filename s) (table w1)"
    using w1 assms(2) by (simp_all add: quiet_next_call_ok)
  let ?w2 = "w1\<lparr>trace := trace w1 @ [PoolQuery (INSERT_MIGRATION_QUERY (filename s) (hash s))],
              outcomes := tl (outcomes w1),
              nextval := nextval w1 + 1,
              table := table w1 @ [\<lparr>eid = nextval w1, efilename = filename s, ehash = Some (hash s)\<rparr>]\<rparr>"
  have "executeMigrationScript s w = (Inr (), info (ScriptComplete (filename s)) ?w2)"
    using w1(1) execute_insert_ok [OF ok, of "hash s"]
    by (simp add: executeMigrationScript_def run_script_def addMigrationEntry_def toSuccess_def)
  moreover have "quiet ?w2" using quiet_tl [OF w1(5)] by simp
  ultimately show ?thesis
    using w1(2-4) by (simp add: info_def)
qed

text \<open>
  C7. For a script handed to \<open>executeMigrationScript\<close>, let \<open>res\<close> be what the
  gateway returns for its body. A body that starts with the marker \<open>--AUTOCOMMIT\<close>
  goes through \<open>execute\<close>: a single \<open>pool.query\<close> of the body and no transaction
  command. Any other body goes through \<open>executeInTransaction\<close>: a connection is
  acquired and everything after that is sent on it, the body never by \<open>pool.query\<close>.
  The call returns normally exactly when \<open>res\<close> is the success variant, and exactly
  then the \<open>INSERT\<close> of the record follows as one more \<open>pool.query\<close>; when that
  \<open>INSERT\<close> goes through, the table gains the row with the script's filename and
  fingerprint. Otherwise nothing more is sent, the table stays as the gateway left it,
  the error is logged and thrown, and the loop, when this is a script it applies,
  stops with that error.
\<close>

theorem executeMigrationScript_policy:
  assumes "dispatch_script s w = (res, w1)"
    and "executeMigrationScript s w = (out, w2)"
  shows "(if startsWith (data s) ''--AUTOCOMMIT''
          then dispatch_script s w = execute (Script (data s)) (info WithoutTransactionBlock w) \<and>
               trace w1 = trace w @ [PoolQuery (Script (data s))]
          else dispatch_script s w = executeInTransaction (Script (data s)) w \<and>
               (\<exists>cs. trace w1 = trace w @ PoolConnect # cs \<and>
                  set cs \<subseteq> {ClientQuery START_TRANSACTION, ClientQuery (Script (data s)),
                              ClientQuery COMMIT, ClientQuery ROLLBACK, ClientRelease})) \<and>
         ((\<exists>r. res = Inr r \<and> isSuccess r) \<longleftrightarrow> out = Inr ()) \<and>
         (out = Inr () \<longleftrightarrow>
            trace w2 = trace w1 @ [PoolQuery (INSERT_MIGRATION_QUERY (filename s) (hash s))]) \<and>
         (out = Inr () \<and> next_call_ok w1 \<and>
          \<not> list_ex (\<lambda>e. eid e = nextval w1 \<or> efilename e = filename s) (table w1) \<longrightarrow>
            table w2 = table w1 @
              [\<lparr>eid = nextval w1, efilename = filename s, ehash = Some (hash s)\<rparr>]) \<and>
         (out \<noteq> Inr () \<longrightarrow>
            trace w2 = trace w1 \<and> table w2 = table w1 \<and>
            (\<exists>e. out = Inl e \<and>
               logged w2 = logged w1 @ [LogError (UnableToExecuteScript (filename s)) (Some e)] \<and>
               (find (\<lambda>entry. efilename entry = filename s) es = None \<and>
                validateScriptId s l = Inr () \<longrightarrow>
                migration_loop es (s # rest) l m w = (Inl e, w2))))"
proof -
  have path: "if startsWith (data s) ''--AUTOCOMMIT''
      then dispatch_script s w = execute (Script (data s)) (info WithoutTransactionBlock w) \<and>
           trace w1 = trace w @ [PoolQuery (Script (data s))]
      else dispatch_script s w = executeInTransaction (Script (data s)) w \<and>
           (\<exists>cs. trace w1 = trace w @ PoolConnect # cs \<and>
              set cs \<subseteq> {ClientQuery START_TRANSACTION, ClientQuery (Script (data s)),
                          ClientQuery COMMIT, ClientQuery ROLLBACK, ClientRelease})"
  proof (cases "startsWith (data s) ''--AUTOCOMMIT''")
    case True
    then have d: "dispatch_script s w =
        execute (Script (data s)) (info WithoutTransactionBlock w)"
      by (simp add: dispatch_script_def)
    with assms(1) trace_execute [of "Script (data s)" "info WithoutTransactionBlock w"]
    have "trace w1 = trace w @ [PoolQuery (Script (data s))]"
      by (simp add: info_def)
    with True d show ?thesis by simp
  next
    case False
    then have d: "dispatch_script s w = executeInTransaction (Script (data s)) w"
      by (simp add: dispatch_script_def)
    with assms(1) trace_executeInTransaction [of "Script (data s)" w]
    have "\<exists>cs. trace w1 = trace w @ PoolConnect # cs \<and>
        set cs \<subseteq> {ClientQuery START_TRANSACTION, ClientQuery (Script (data s)),
                    ClientQuery COMMIT, ClientQuery ROLLBACK, ClientRelease}"
      by simp
    with False d show ?thesis by simp
  qed
  let ?ins = "INSERT_MIGRATION_QUERY (filename s) (hash s)"
  consider e where "res = Inl e"
    | r where "res = Inr r" "\<not> isSuccess r"
    | r where "res = Inr r" "isSuccess r"
    by (cases res) auto
  then have rest: "((\<exists>r. res = Inr r \<and> isSuccess r) \<longleftrightarrow> out = Inr ()) \<and>
         (out = Inr () \<longleftrightarrow> trace w2 = trace w1 @ [PoolQuery ?ins]) \<and>
         (out = Inr () \<and> next_call_ok w1 \<and>
          \<not> list_ex (\<lambda>e. eid e = nextval w1 \<or> efilename e = filename s) (table w1) \<longrightarrow>
            table w2 = table w1 @
              [\<lparr>eid = nextval w1, efilename = filename s, ehash = Some (hash s)\<rparr>]) \<and>
         (out \<noteq> Inr () \<longrightarrow>
            trace w2 = trace w1 \<and> table w2 = table w1 \<and>
            (\<exists>e. out = Inl e \<and>
               logged w2 = logged w1 @ [LogError (UnableToExecuteScript (filename s)) (Some e)] \<and>
               (find (\<lambda>entry. efilename entry = filename s) es = None \<and>
                validateScriptId s l = Inr () \<longrightarrow>
                migration_loop es (s # rest) l m w = (Inl e, w2))))"
  proof cases
    case 1
    with assms have "out = Inl e"
      "w2 = log_error (UnableToExecuteScript (filename s)) (Some e) w1"
      by (simp_all add: executeMigrationScript_def run_script_def)
    with 1 assms(2) show ?thesis by (simp add: log_error_def)
  next
    case 2
    with assms have "out = Inl (DbError (case error r of None \<Rightarrow> [] | Some m \<Rightarrow> m))"
      "w2 = log_error (UnableToExecuteScript (filename s))
              (Some (DbError (case error r of None \<Rightarrow> [] | Some m \<Rightarrow> m))) w1"
      by (simp_all add: executeMigrationScript_def run_script_def addMigrationEntry_def)
    with 2 assms(2) show ?thesis by (simp add: log_error_def)
  next
    case 3
    obtain r' w1' where i: "execute ?ins w1 = (Inr r', w1')"
      using execute_Inr by blast
    with 3 assms have o: "out = Inr ()" "w2 = info (ScriptComplete (filename s)) w1'"
      by (simp_all add: executeMigrationScript_def run_script_def addMigrationEntry_def)
    have t: "trace w2 = trace w1 @ [PoolQuery ?ins]"
      using trace_execute [of ?ins w1] i o(2) by (simp add: info_def)
    have "table w2 = table w1 @
        [\<lparr>eid = nextval w1, efilename = filename s, ehash = Some (hash s)\<rparr>]"
      if "next_call_ok w1"
        "\<not> list_ex (\<lambda>e. eid e = nextval w1 \<or> efilename e = filename s) (table w1)"
      using execute_insert_ok [OF that, of "hash s"] i o(2) by (auto simp: info_def)
    with 3 o(1) t show ?thesis by simp
  qed
  from path rest show ?thesis by blast
qed

theorem executeMigrationScript_policy_witness:
  "startsWith (data script2) ''--AUTOCOMMIT'' \<and>
   trace (snd (dispatch_script script2 fresh_world)) = [PoolQuery (Script (data script2))] \<and>
   \<not> startsWith (data script1) ''--AUTOCOMMIT'' \<and>
   trace (snd (dispatch_script script1 fresh_world)) =
     [PoolConnect, ClientQuery START_TRANSACTION, ClientQuery (Script (data script1)),
      ClientQuery COMMIT, ClientRelease] \<and>
   fst (executeMigrationScript script1 fresh_world) = Inr () \<and>
   trace (snd (executeMigrationScript script1 fresh_world)) =
     trace (snd (dispatch_script script1 fresh_world)) @
       [PoolQuery (INSERT_MIGRATION_QUERY (filename script1) (hash script1))] \<and>
   table (snd (executeMigrationScript script1 fresh_world)) =
     [sentinel, \<lparr>eid = 1, efilename = ''1_init.sql'', ehash = Some (hash script1)\<rparr>] \<and>
   fst (dispatch_script script1 rejecting_world) = Inr (toError ''syntax error'') \<and>
   fst (executeMigrationScript script1 rejecting_world) = Inl (DbError ''syntax error'') \<and>
   trace (snd (executeMigrationScript script1 rejecting_world)) =
     [PoolConnect, ClientQuery START_TRANSACTION, ClientQuery (Script (data script1)),
      ClientQuery ROLLBACK, ClientRelease] \<and>
   table (snd (executeMigrationScript script1 rejecting_world)) = [sentinel]"
proof -
  let ?d1 = "dispatch_script script1 fresh_world"
  let ?x1 = "executeMigrationScript script1 fresh_world"
  let ?x3 = "executeMigrationScript script1 rejecting_world"
  have d2: "trace (snd (dispatch_script script2 fresh_world)) = [PoolQuery (Script (data script2))]"
    by (simp add: dispatch_script_def script2_fields startsWith_def trace_execute info_def
        fresh_world_fields)
  have d1: "?d1 = (Inr (toSuccess []),
      fresh_world\<lparr>trace := [PoolConnect, ClientQuery START_TRANSACTION,
          ClientQuery (Script (data script1)), ClientQuery COMMIT, ClientRelease],
        applied := [data script1],
        logged := [LogDebug StatementStarted, LogDebug StatementExecuted]\<rparr>)"
    by (simp add: dispatch_script_def script1_fields startsWith_def executeInTransaction_def
        transaction_block_def pool_connect_def client_query_def client_release_def
        next_outcome_def debug_def fresh_world_def empty_world_def)
  have d3: "dispatch_script script1 rejecting_world = (Inr (toError ''syntax error''),
      fresh_world\<lparr>trace := [PoolConnect, ClientQuery START_TRANSACTION,
          ClientQuery (Script (data script1)), ClientQuery ROLLBACK, ClientRelease],
        logged := [LogDebug StatementStarted,
                   LogError StatementFailed (Some (DbError ''syntax error''))]\<rparr>)"
    by (simp add: dispatch_script_def script1_fields startsWith_def executeInTransaction_def
        transaction_block_def pool_connect_def client_query_def client_release_def
        next_outcome_def debug_def log_error_def rejecting_world_def fresh_world_def
        empty_world_def)
  have ok1: "next_call_ok (snd ?d1)"
    "\<not> list_ex (\<lambda>e. eid e = nextval (snd ?d1) \<or> efilename e = filename script1)
        (table (snd ?d1))"
    by (simp_all add: d1 next_call_ok_def fresh_world_fields sentinel_def
        sentinel_filename_def script1_fields)
  have s1: "\<exists>r. fst ?d1 = Inr r \<and> isSuccess r" by (simp add: d1 toSuccess_def)
  have s3: "\<not> (\<exists>r. fst (dispatch_script script1 rejecting_world) = Inr r \<and> isSuccess r)"
    by (simp add: d3 toError_def)
  note p1 = executeMigrationScript_policy
      [of script1 fresh_world "fst ?d1" "snd ?d1" "fst ?x1" "snd ?x1", simplified]
  note p3 = executeMigrationScript_policy
      [of script1 rejecting_world "fst (dispatch_script script1 rejecting_world)"
        "snd (dispatch_script script1 rejecting_world)" "fst ?x3" "snd ?x3", simplified]
  have o1: "fst ?x1 = Inr ()" using p1 s1 by blast
  have t1: "trace (snd ?x1) = trace (snd ?d1) @
      [PoolQuery (INSERT_MIGRATION_QUERY (filename script1) (hash script1))]"
    using p1 o1 by blast
  have tb1: "table (snd ?x1) = table (snd ?d1) @
      [\<lparr>eid = nextval (snd ?d1), efilename = filename script1, ehash = Some (hash script1)\<rparr>]"
    using p1 o1 ok1 by blast
  have o3: "fst ?x3 \<noteq> Inr ()" using p3 s3 by blast
  have t3: "trace (snd ?x3) = trace (snd (dispatch_script script1 rejecting_world))"
    "table (snd ?x3) = table (snd (dispatch_script script1 rejecting_world))"
    using p3 o3 by blast+
  have x3: "fst ?x3 = Inl (DbError ''syntax error'')"
    by (simp add: executeMigrationScript_def run_script_def d3 addMigrationEntry_def toError_def)
  show ?thesis
    using d2 o1 t1 tb1 t3 x3
    by (simp add: d1 d3 script1_fields script2_fields fresh_world_fields startsWith_def)
qed

text \<open>
  C9. Let a script be one the loop has to apply (no persisted record has its
  filename, and its id is the last applied id plus one), let the gateway return the
  success variant for its body, and let the \<open>INSERT\<close> of its record come back as the
  failure variant. Then \<open>executeMigrationScript\<close> returns normally after logging
  that the script completed successfully, and the loop goes on with the next script,
  taking this script's id as the last applied one. The body is among the applied
  scripts and the tracking table is as it was before the script: applied, not recorded.
\<close>

theorem failed_insert_is_ignored:
  assumes "find (\<lambda>entry. efilename entry = filename s) es = None"
    and "validateScriptId s l = Inr ()"
    and "dispatch_script s w = (Inr r, w1)"
    and "isSuccess r"
    and "execute (INSERT_MIGRATION_QUERY (filename s) (hash s)) w1 = (Inr r', w2)"
    and "\<not> isSuccess r'"
  shows "executeMigrationScript s w = (Inr (), info (ScriptComplete (filename s)) w2) \<and>
         migration_loop es (s # rest) l m w =
           migration_loop es rest (sid s) (m @ [s]) (info (ScriptComplete (filename s)) w2) \<and>
         applied w2 = applied w @ [data s] \<and>
         table w2 = table w"
proof -
  have ex: "executeMigrationScript s w = (Inr (), info (ScriptComplete (filename s)) w2)"
    using assms(3-5)
    by (simp add: executeMigrationScript_def run_script_def addMigrationEntry_def)
  moreover have "migration_loop es (s # rest) l m w =
      migration_loop es rest (sid s) (m @ [s]) (info (ScriptComplete (filename s)) w2)"
    using assms(1,2) ex by simp
  moreover have "applied w2 = applied w @ [data s]" "table w2 = table w"
    using dispatch_script_success [OF assms(3,4)] execute_insert_failure [OF assms(5,6)]
    by simp_all
  ultimately show ?thesis by simp
qed

theorem failed_insert_is_ignored_witness:
  "find (\<lambda>entry. efilename entry = filename script1) [sentinel] = None \<and>
   validateScriptId script1 (Num 0) = Inr () \<and>
   fst (dispatch_script script1 flaky_world) = Inr (toSuccess []) \<and>
   fst (execute (INSERT_MIGRATION_QUERY (filename script1) (hash script1))
          (snd (dispatch_script script1 flaky_world))) = Inr (toError ''connection terminated'') \<and>
   fst (executeMigrationScript script1 flaky_world) = Inr () \<and>
   last (logged (snd (executeMigrationScript script1 flaky_world))) =
     LogInfo (ScriptComplete ''1_init.sql'') \<and>
   applied (snd (executeMigrationScript script1 flaky_world)) = [data script1] \<and>
   table (snd (executeMigrationScript script1 flaky_world)) = [sentinel] \<and>
   migration_loop [sentinel] [script1, script2] (Num 0) [] flaky_world =
     migration_loop [sentinel] [script2] (Num 1) [script1]
       (snd (executeMigrationScript script1 flaky_world))"
proof -
  let ?w1 = "flaky_world\<lparr>
      trace := [PoolConnect, ClientQuery START_TRANSACTION, ClientQuery (Script (data script1)),
                ClientQuery COMMIT, ClientRelease],
      outcomes := [Some ''connection terminated''],
      applied := [data script1],
      logged := [LogDebug StatementStarted, LogDebug StatementExecuted]\<rparr>"
  let ?w2 = "?w1\<lparr>trace := trace ?w1 @
        [PoolQuery (INSERT_MIGRATION_QUERY (filename script1) (hash script1))],
      outcomes := []\<rparr>"
  have nf: "find (\<lambda>entry. efilename entry = filename script1) [sentinel] = None"
    by (simp add: sentinel_def sentinel_filename_def script1_def)
  have v: "validateScriptId script1 (Num 0) = Inr ()"
    by (simp add: validateScriptId_def script1_def)
  have d: "dispatch_script script1 flaky_world = (Inr (toSuccess []), ?w1)"
    by (simp add: dispatch_script_def startsWith_def script1_def executeInTransaction_def
        transaction_block_def pool_connect_def client_query_def client_release_def
        next_outcome_def debug_def flaky_world_def fresh_world_def empty_world_def)
  have s: "isSuccess (toSuccess [])" by (simp add: toSuccess_def)
  have i: "execute (INSERT_MIGRATION_QUERY (filename script1) (hash script1)) ?w1 =
      (Inr (toError ''connection terminated''), ?w2)"
    by (simp add: execute_def pool_query_def next_outcome_def)
  have f: "\<not> isSuccess (toError ''connection terminated'')" by (simp add: toError_def)
  from failed_insert_is_ignored [OF nf v d s i f, of "[script2]" "[]"] nf v d i
  show ?thesis
    by (simp add: info_def flaky_world_def fresh_world_def empty_world_def script1_def)
qed

subsection \<open>The loop over the scripts\<close>

lemma migration_loop_modified:
  assumes "find (\<lambda>entry. efilename entry = filename s) es = Some e"
    and "ehash e = Some h" and "h \<noteq> hash s"
  shows "migration_loop es (s # rest) l m w = (Inl (ScriptModified (filename s)), w)"
  using assms by (simp add: updateScriptHash_def)

lemma migration_loop_stops_at_modified:
  assumes "find (\<lambda>entry. efilename entry = filename s) es = Some e"
    and "ehash e = Some h" and "h \<noteq> hash s"
  shows "migration_loop es (pre @ s # post) l m w =
           (case migration_loop es pre l m w of
              (Inl x, w') \<Rightarrow> (Inl x, w')
            | (Inr m', w') \<Rightarrow> (Inl (ScriptModified (filename s)), w'))"
proof (induction pre arbitrary: l m w)
  case Nil
  show ?case using migration_loop_modified [OF assms] by simp
next
  case (Cons a pre)
  show ?case
    by (simp add: Cons.IH split: option.splits sum.splits prod.splits)
qed

text \<open>
  C2 does not hold as it is stated, for every discovered script with such a record:
  the run stops at the first failure. In the example directory with both scripts
  recorded under digests that are no longer theirs, \<open>2_add_col.sql\<close> is such a
  script, and the run fails with the error naming \<open>1_init.sql\<close>.
\<close>

theorem modified_script_not_named:
  "script2 \<in> set example_found \<and>
   table twice_edited_world =
     [sentinel,
      \<lparr>eid = 1, efilename = ''1_init.sql'', ehash = Some ''0123456789abcdef''\<rparr>,
      \<lparr>eid = 2, efilename = filename script2, ehash = Some ''fedcba9876543210''\<rparr>] \<and>
   ''fedcba9876543210'' \<noteq> hash script2 \<and>
   startMigration example_platform example_client twice_edited_world =
     twice_edited_world\<lparr>trace := [PoolQuery SELECT_EXISTING_MIGRATIONS],
       logged := [LogInfo StartMigration, LogDebug (SearchStarted ''sql''),
                  LogDebug (SearchCompleted 2),
                  LogError UnableToCompleteMigration (Some (ScriptModified ''1_init.sql''))]\<rparr> \<and>
   ScriptModified ''1_init.sql'' \<noteq> ScriptModified (filename script2)"
  by (simp add: startMigration_def migration_body_def example_discovery example_client_fields
      doMigration_def getPersistedMigrations_ok next_call_ok_def info_def log_error_def
      twice_edited_world_def fresh_world_def empty_world_def sentinel_def
      sentinel_filename_def script1_def script2_def example_found_def updateScriptHash_def)

text \<open>
  C2, amended. Let the history read at the start of the run hold a record with the
  filename of the script \<open>s\<close> and a non-null fingerprint other than the fingerprint of
  \<open>s\<close>, and let \<open>pre\<close> be the scripts before \<open>s\<close> and \<open>post\<close> those after it, in
  ascending id order. The loop over all of them does what the loop over \<open>pre\<close> alone
  does and then, unless that already failed, fails at \<open>s\<close> with the error naming its
  filename, in the world the scripts of \<open>pre\<close> left: neither \<open>s\<close> nor any script of
  \<open>post\<close> is executed or recorded. When the engine is initialised, discovery returns
  these scripts and the scripts of \<open>pre\<close> are processed without an error, ending in
  the world \<open>w3\<close>, the run ends in \<open>w3\<close> with that error logged at the top level.
\<close>

theorem modified_script_aborts_run:
  assumes "find (\<lambda>entry. efilename entry = filename s) es = Some e"
    and "ehash e = Some h"
    and "h \<noteq> hash s"
  shows "migration_loop es (pre @ s # post) l m w =
           (case migration_loop es pre l m w of
              (Inl x, w') \<Rightarrow> (Inl x, w')
            | (Inr m', w') \<Rightarrow> (Inl (ScriptModified (filename s)), w')) \<and>
         (initialized c \<and>
          getMigrationsScripts p c (info StartMigration w0) = (Inr (pre @ s # post), w1) \<and>
          getPersistedMigrations w1 = (Inr es, w2) \<and>
          migration_loop es pre (Num (eid (last es))) [] w2 = (Inr missed, w3) \<longrightarrow>
          startMigration p c w0 =
            log_error UnableToCompleteMigration (Some (ScriptModified (filename s))) w3)"
proof (intro conjI impI)
  show "migration_loop es (pre @ s # post) l m w =
      (case migration_loop es pre l m w of
         (Inl x, w') \<Rightarrow> (Inl x, w')
       | (Inr m', w') \<Rightarrow> (Inl (ScriptModified (filename s)), w'))"
    using assms by (rule migration_loop_stops_at_modified)
next
  assume run: "initialized c \<and>
      getMigrationsScripts p c (info StartMigration w0) = (Inr (pre @ s # post), w1) \<and>
      getPersistedMigrations w1 = (Inr es, w2) \<and>
      migration_loop es pre (Num (eid (last es))) [] w2 = (Inr missed, w3)"
  from assms(1) have ne: "es \<noteq> []" by auto
  have loop: "migration_loop es (pre @ s # post) (Num (eid (last es))) [] w2
      = (Inl (ScriptModified (filename s)), w3)"
    using migration_loop_stops_at_modified [OF assms, of pre post "Num (eid (last es))" "[]" w2] run
    by simp
  have "doMigration (pre @ s # post) w1 = (Inl (ScriptModified (filename s)), w3)"
    using run ne loop by (cases es) (simp_all add: doMigration_def del: last.simps)
  then show "startMigration p c w0 =
      log_error UnableToCompleteMigration (Some (ScriptModified (filename s))) w3"
    using run by (simp add: startMigration_def migration_body_def)
qed

theorem modified_script_aborts_run_witness:
  "initialized example_client \<and>
   getMigrationsScripts example_platform example_client (info StartMigration edited_world) =
     (Inr ([] @ script1 # [script2]),
      edited_world\<lparr>logged := [LogInfo StartMigration, LogDebug (SearchStarted ''sql''),
                               LogDebug (SearchCompleted 2)]\<rparr>) \<and>
   find (\<lambda>entry. efilename entry = filename script1) (table edited_world) =
     Some \<lparr>eid = 1, efilename = ''1_init.sql'', ehash = Some ''0123456789abcdef''\<rparr> \<and>
   ''0123456789abcdef'' \<noteq> hash script1 \<and>
   startMigration example_platform example_client edited_world =
     edited_world\<lparr>trace := [PoolQuery SELECT_EXISTING_MIGRATIONS],
       logged := [LogInfo StartMigration, LogDebug (SearchStarted ''sql''),
                  LogDebug (SearchCompleted 2),
                  LogError UnableToCompleteMigration (Some (ScriptModified ''1_init.sql''))]\<rparr>"
proof -
  let ?w1 = "edited_world\<lparr>logged := [LogInfo StartMigration, LogDebug (SearchStarted ''sql''),
                               LogDebug (SearchCompleted 2)]\<rparr>"
  let ?w2 = "?w1\<lparr>trace := [PoolQuery SELECT_EXISTING_MIGRATIONS]\<rparr>"
  let ?e = "\<lparr>eid = 1, efilename = ''1_init.sql'', ehash = Some ''0123456789abcdef''\<rparr>"
  have init: "initialized example_client" by (simp add: example_client_def)
  have disc: "getMigrationsScripts example_platform example_client (info StartMigration edited_world) =
     (Inr ([] @ script1 # [script2]), ?w1)"
    by (simp add: example_discovery info_def edited_world_def fresh_world_def empty_world_def)
  have hist: "getPersistedMigrations ?w1 = (Inr (table edited_world), ?w2)"
    by (simp add: getPersistedMigrations_ok next_call_ok_def edited_world_def fresh_world_def
        empty_world_def sentinel_def)
  have reach: "migration_loop (table edited_world) [] (Num (eid (last (table edited_world)))) [] ?w2
      = (Inr [], ?w2)"
    by simp
  have rec: "find (\<lambda>entry. efilename entry = filename script1) (table edited_world) = Some ?e"
    by (simp add: edited_world_def fresh_world_def empty_world_def sentinel_def
        sentinel_filename_def script1_def)
  have h: "ehash ?e = Some ''0123456789abcdef''" by simp
  have ne: "''0123456789abcdef'' \<noteq> hash script1" by (simp add: script1_def)
  have "startMigration example_platform example_client edited_world =
      log_error UnableToCompleteMigration (Some (ScriptModified (filename script1))) ?w2"
    using modified_script_aborts_run [OF rec h ne, THEN conjunct2, rule_format,
        of example_client example_platform edited_world "[]" "[script2]" ?w1 ?w2 "[]" ?w2]
      init disc hist reach
    by blast
  then show ?thesis
    using init disc rec ne
    by (simp add: log_error_def script1_def edited_world_def fresh_world_def empty_world_def)
qed

text \<open>
  C6 does not hold as it is stated, for every discovered script with such a record:
  a run that fails earlier never comes to it. In the example directory with
  \<open>1_init.sql\<close> recorded under a stale digest and \<open>2_add_col.sql\<close> recorded with a
  null fingerprint, the run fails at \<open>1_init.sql\<close>; it sends the \<open>SELECT\<close> and
  nothing else, and the table is as before, the null fingerprint included.
\<close>

theorem legacy_record_not_backfilled:
  "script2 \<in> set example_found \<and>
   table edited_legacy_world =
     [sentinel,
      \<lparr>eid = 1, efilename = ''1_init.sql'', ehash = Some ''0123456789abcdef''\<rparr>,
      \<lparr>eid = 2, efilename = filename script2, ehash = None\<rparr>] \<and>
   table (startMigration example_platform example_client edited_legacy_world) =
     table edited_legacy_world \<and>
   trace (startMigration example_platform example_client edited_legacy_world) =
     [PoolQuery SELECT_EXISTING_MIGRATIONS] \<and>
   last (logged (startMigration example_platform example_client edited_legacy_world)) =
     LogError UnableToCompleteMigration (Some (ScriptModified ''1_init.sql''))"
  by (simp add: startMigration_def migration_body_def example_discovery example_client_fields
      doMigration_def getPersistedMigrations_ok next_call_ok_def info_def log_error_def
      edited_legacy_world_def fresh_world_def empty_world_def sentinel_def
      sentinel_filename_def script1_def script2_def example_found_def updateScriptHash_def)

text \<open>
  C6, amended. When the loop comes to a script whose persisted record, found by
  filename, has a null fingerprint, it sends the \<open>UPDATE\<close> that sets the fingerprint of
  the rows with that filename to the script's current fingerprint, sends nothing else,
  and goes on with the remaining scripts, with the last applied id and the list of
  missed scripts as they were: the script body is not executed. When the \<open>UPDATE\<close>
  goes through, the table is the old one with that fingerprint filled in; its result is
  not inspected, so when the driver throws the table is left as it was and the loop
  goes on all the same.
\<close>

theorem migration_loop_backfill:
  assumes "find (\<lambda>entry. efilename entry = filename s) es = Some e"
    and "ehash e = None"
  shows "\<exists>w'. migration_loop es (s # rest) l m w = migration_loop es rest l m w' \<and>
           trace w' = trace w @ [PoolQuery (UPDATE_MIGRATION_ROW_HASH (hash s) (filename s))] \<and>
           applied w' = applied w \<and> nextval w' = nextval w \<and> logged w' = logged w \<and>
           table w' =
             (if next_call_ok w
              then map (\<lambda>e. if efilename e = filename s then e\<lparr>ehash := Some (hash s)\<rparr> else e)
                     (table w)
              else table w)"
proof (cases "next_call_ok w")
  case True
  let ?w' = "w\<lparr>trace := trace w @ [PoolQuery (UPDATE_MIGRATION_ROW_HASH (hash s) (filename s))],
      outcomes := tl (outcomes w),
      table := map (\<lambda>e. if efilename e = filename s then e\<lparr>ehash := Some (hash s)\<rparr> else e)
                 (table w)\<rparr>"
  have "updateScriptHash s None w = (Inr (), ?w')"
    using True by (simp add: updateScriptHash_def execute_def pool_query_def next_outcome_ok)
  then show ?thesis
    using assms True by (intro exI[of _ ?w']) simp
next
  case False
  then obtain m' rest' where oc: "outcomes w = Some m' # rest'"
    by (auto simp: next_call_ok_def split: list.splits)
  let ?w' = "w\<lparr>trace := trace w @ [PoolQuery (UPDATE_MIGRATION_ROW_HASH (hash s) (filename s))],
      outcomes := rest'\<rparr>"
  have "updateScriptHash s None w = (Inr (), ?w')"
    using oc by (simp add: updateScriptHash_def execute_def pool_query_def next_outcome_def)
  then show ?thesis
    using assms False by (intro exI[of _ ?w']) simp
qed

theorem migration_loop_backfill_witness:
  "find (\<lambda>entry. efilename entry = filename script1) (table legacy_world) =
     Some \<lparr>eid = 1, efilename = ''1_init.sql'', ehash = None\<rparr> \<and>
   next_call_ok legacy_world \<and>
   (\<exists>w'. migration_loop (table legacy_world) (script1 # [script2]) (Num 1) [] legacy_world =
           migration_loop (table legacy_world) [script2] (Num 1) [] w' \<and>
      trace w' = [PoolQuery (UPDATE_MIGRATION_ROW_HASH (hash script1) ''1_init.sql'')] \<and>
      applied w' = [] \<and>
      table w' = [sentinel, \<lparr>eid = 1, efilename = ''1_init.sql'', ehash = Some (hash script1)\<rparr>])"
proof -
  let ?e = "\<lparr>eid = 1, efilename = ''1_init.sql'', ehash = None\<rparr>"
  have rec: "find (\<lambda>entry. efilename entry = filename script1) (table legacy_world) = Some ?e"
    by (simp add: legacy_world_def fresh_world_def empty_world_def sentinel_def
        sentinel_filename_def script1_def)
  have h: "ehash ?e = None" by simp
  have ok: "next_call_ok legacy_world"
    by (simp add: legacy_world_def fresh_world_def empty_world_def next_call_ok_def)
  from migration_loop_backfill [OF rec h, of "[script2]" "Num 1" "[]" legacy_world]
  obtain w' where w': "migration_loop (table legacy_world) (script1 # [script2]) (Num 1) [] legacy_world =
           migration_loop (table legacy_world) [script2] (Num 1) [] w'"
     "trace w' = trace legacy_world @ [PoolQuery (UPDATE_MIGRATION_ROW_HASH (hash script1) (filename script1))]"
     "applied w' = applied legacy_world"
     "table w' = (if next_call_ok legacy_world
              then map (\<lambda>e. if efilename e = filename script1 then e\<lparr>ehash := Some (hash script1)\<rparr> else e)
                     (table legacy_world)
              else table legacy_world)"
    by blast
  have "trace w' = [PoolQuery (UPDATE_MIGRATION_ROW_HASH (hash script1) ''1_init.sql'')]"
    using w'(2) by (simp add: legacy_world_def fresh_world_def empty_world_def script1_def)
  moreover have "applied w' = []"
    using w'(3) by (simp add: legacy_world_def fresh_world_def empty_world_def)
  moreover have "table w' = [sentinel, \<lparr>eid = 1, efilename = ''1_init.sql'', ehash = Some (hash script1)\<rparr>]"
    using w'(4) ok
    by (simp add: legacy_world_def fresh_world_def empty_world_def sentinel_def
        sentinel_filename_def script1_def)
  ultimately show ?thesis using rec ok w'(1) by blast
qed

lemma find_SomeD: "find P xs = Some x \<Longrightarrow> x \<in> set xs \<and> P x"
  by (induction xs) (auto split: if_splits)

lemma find_matching_record:
  assumes "\<exists>e\<in>set tbl. efilename e = f"
    and "\<forall>e\<in>set tbl. efilename e = f \<longrightarrow> ehash e = Some h"
  shows "\<exists>e. find (\<lambda>entry. efilename entry = f) (sort_key eid tbl) = Some e \<and> ehash e = Some h"
proof -
  from assms(1) have "\<exists>e\<in>set (sort_key eid tbl). efilename e = f" by simp
  then obtain e where e: "find (\<lambda>entry. efilename entry = f) (sort_key eid tbl) = Some e"
    by (cases "find (\<lambda>entry. efilename entry = f) (sort_key eid tbl)")
      (auto simp: find_None_iff)
  from find_SomeD [OF this] have "e \<in> set tbl" "efilename e = f"
    by simp_all
  with assms(2) e show ?thesis by auto
qed

lemma migration_loop_all_matched:
  "\<forall>s\<in>set ss. \<exists>e. find (\<lambda>entry. efilename entry = filename s) es = Some e \<and>
       ehash e = Some (hash s) \<Longrightarrow>
   migration_loop es ss l m w = (Inr m, w)"
  by (induction ss) (auto simp: updateScriptHash_def)

lemma length_new_entries: "length (new_entries i ss) = length ss"
  by (induction ss arbitrary: i) auto

lemma migration_loop_all_new:
  assumes "quiet w"
    and "\<forall>s\<in>set ss. find (\<lambda>entry. efilename entry = filename s) es = None"
    and "distinct (map filename ss)"
    and "\<forall>s\<in>set ss. filename s \<notin> efilename ` set (table w)"
    and "\<forall>e\<in>set (table w). eid e < nextval w"
    and "map sid ss = map Num [k + 1..k + int (length ss)]"
  shows "\<exists>w'. migration_loop es ss (Num k) m w = (Inr (m @ ss), w') \<and>
           table w' = table w @ new_entries (nextval w) ss \<and>
           applied w' = applied w @ map data ss \<and> quiet w'"
  using assms
proof (induction ss arbitrary: k m w)
  case Nil
  then show ?case by simp
next
  case (Cons s ss)
  have up: "[k + 1..k + int (length (s # ss))] = (k + 1) # [k + 1 + 1..k + 1 + int (length ss)]"
  proof -
    have "k + 1 \<le> k + int (length (s # ss))" by simp
    from upto_rec1 [OF this] show ?thesis by (simp add: algebra_simps)
  qed
  with Cons.prems(6) have sid: "sid s = Num (k + 1)"
    and ids: "map sid ss = map Num [k + 1 + 1..k + 1 + int (length ss)]"
    by simp_all
  have nf: "find (\<lambda>entry. efilename entry = filename s) es = None"
    using Cons.prems(2) by simp
  have v: "validateScriptId s (Num k) = Inr ()"
    by (simp add: validateScriptId_def sid)
  have fresh: "\<not> list_ex (\<lambda>e. eid e = nextval w \<or> efilename e = filename s) (table w)"
    using Cons.prems(4,5) by (force simp: list_ex_iff image_iff)
  from executeMigrationScript_quiet [OF Cons.prems(1) fresh] obtain w1 where
    x: "executeMigrationScript s w = (Inr (), w1)" and
    w1: "table w1 = table w @ [\<lparr>eid = nextval w, efilename = filename s, ehash = Some (hash s)\<rparr>]"
      "applied w1 = applied w @ [data s]" "nextval w1 = nextval w + 1" "quiet w1"
    by blast
  have p2: "\<forall>s\<in>set ss. find (\<lambda>entry. efilename entry = filename s) es = None"
    and p3: "distinct (map filename ss)"
    using Cons.prems(2,3) by simp_all
  have p4: "\<forall>s'\<in>set ss. filename s' \<notin> efilename ` set (table w1)"
    using Cons.prems(3,4) w1(1) by (force simp: image_iff)
  have p5: "\<forall>e\<in>set (table w1). eid e < nextval w1"
    using Cons.prems(5) w1(1,3) by auto
  from Cons.IH [OF w1(4) p2 p3 p4 p5 ids, of "m @ [s]"] obtain w' where
    l: "migration_loop es ss (Num (k + 1)) (m @ [s]) w1 = (Inr ((m @ [s]) @ ss), w')" and
    w': "table w' = table w1 @ new_entries (nextval w1) ss"
      "applied w' = applied w1 @ map data ss" "quiet w'"
    by blast
  have "migration_loop es (s # ss) (Num k) m w = (Inr (m @ s # ss), w')"
    using nf v x l sid by simp
  then show ?case
    using w' w1 by simp
qed

subsection \<open>Whole runs\<close>

text \<open>
  C1. Let the engine be initialised, let discovery return scripts whose ids are pairwise
  different and are exactly 1 to \<open>N\<close>, let the tracking table hold the sentinel row
  (id 0) alone, with the sequence above it, and let no call to the driver throw. Then
  the sorted scripts carry the ids 1, 2, ..., \<open>N\<close> in this order; the run applies
  their bodies in this order, one after the other; it appends one row per script, in
  the same order, each with the script's filename and fingerprint and the next value of
  the sequence as id; the table ends with \<open>N + 1\<close> rows; and the last log entry
  reports the completed migration.
\<close>

theorem startMigration_applies_all:
  assumes "initialized c"
    and "read_scripts p (migrationPath c) = Inr found"
    and "distinct (map sid found)"
    and "set (map sid found) = Num ` {1..int N}"
    and "table w = [\<lparr>eid = 0, efilename = sentinel_filename, ehash = h0\<rparr>]"
    and "0 < nextval w"
    and "quiet w"
  shows "map sid (sort_scripts found) = map Num [1..int N] \<and>
         applied (startMigration p c w) = applied w @ map data (sort_scripts found) \<and>
         table (startMigration p c w) =
           table w @ new_entries (nextval w) (sort_scripts found) \<and>
         length (table (startMigration p c w)) = N + 1 \<and>
         last (logged (startMigration p c w)) = LogInfo MigrationComplete"
proof -
  define sorted where "sorted = sort_scripts found"
  have ids: "map sid sorted = map Num [1..int N]"
    unfolding sorted_def using assms(3,4) by (rule sort_scripts_contiguous)
  have "length (map sid sorted) = length (map Num [1..int N])" by (simp only: ids)
  then have len: "length sorted = N" by simp
  have chk: "check_sequence None sorted = Inr ()"
    using ids len by (intro check_sequence_from_one) simp
  let ?w1 = "w\<lparr>logged := logged w @ [LogInfo StartMigration,
      LogDebug (SearchStarted (migrationPath c)), LogDebug (SearchCompleted (length found))]\<rparr>"
  have gs: "getMigrationsScripts p c (info StartMigration w) = (Inr sorted, ?w1)"
    using getMigrationsScripts_found [OF assms(2), of "info StartMigration w"] chk
    by (simp add: sorted_def info_def)
  show ?thesis
  proof (cases "sorted = []")
    case True
    then have "startMigration p c w =
        ?w1\<lparr>logged := logged ?w1 @ [LogInfo (ScriptsNotFound (migrationPath c)),
                                    LogInfo MigrationComplete]\<rparr>"
      using assms(1) gs by (simp add: startMigration_def migration_body_def info_def)
    with True len ids assms(5) show ?thesis by (simp add: sorted_def)
  next
    case False
    let ?es = "[\<lparr>eid = 0, efilename = sentinel_filename, ehash = h0\<rparr>]"
    let ?w2 = "?w1\<lparr>trace := trace ?w1 @ [PoolQuery SELECT_EXISTING_MIGRATIONS],
        outcomes := tl (outcomes ?w1)\<rparr>"
    have pm: "getPersistedMigrations ?w1 = (Inr ?es, ?w2)"
      using assms(5,7) by (simp add: getPersistedMigrations_ok quiet_next_call_ok)
    have q2: "quiet ?w2" using assms(7) by simp
    have wf: "\<forall>s\<in>set sorted. 1 \<le> search_delimiter (filename s) \<and>
        sid s = parseInt (take (nat (search_delimiter (filename s))) (filename s))"
      using read_scripts_wellformed [OF assms(2)] by (simp add: sorted_def set_sort_scripts)
    have ns: "\<forall>s\<in>set sorted. filename s \<noteq> sentinel_filename"
      using wf sentinel_filename_no_delimiter by force
    have a2: "\<forall>s\<in>set sorted. find (\<lambda>entry. efilename entry = filename s) ?es = None"
      using ns by auto
    have "distinct (map sid sorted)" by (simp add: ids distinct_map inj_on_def)
    moreover have "map sid sorted =
        map (\<lambda>f. parseInt (take (nat (search_delimiter f)) f)) (map filename sorted)"
      using wf by simp
    ultimately have "distinct (map (\<lambda>f. parseInt (take (nat (search_delimiter f)) f))
        (map filename sorted))"
      by (simp only:)
    then have a3: "distinct (map filename sorted)"
      by (rule distinct_map [THEN iffD1, THEN conjunct1])
    have a4: "\<forall>s\<in>set sorted. filename s \<notin> efilename ` set (table ?w2)"
      using ns assms(5) by auto
    have a5: "\<forall>e\<in>set (table ?w2). eid e < nextval ?w2"
      using assms(5,6) by simp
    have a6: "map sid sorted = map Num [0 + 1..0 + int (length sorted)]"
      using ids len by simp
    from migration_loop_all_new [OF q2 a2 a3 a4 a5 a6, of "[]"] obtain w3 where
      l: "migration_loop ?es sorted (Num 0) [] ?w2 = (Inr sorted, w3)" and
      w3: "table w3 = table ?w2 @ new_entries (nextval ?w2) sorted"
        "applied w3 = applied ?w2 @ map data sorted"
      by auto
    have dm: "doMigration sorted ?w1 = (Inr (), w3)"
      using pm l False by (simp add: doMigration_def)
    have "startMigration p c w = info MigrationComplete w3"
      using assms(1) gs False dm by (simp add: startMigration_def migration_body_def)
    then show ?thesis
      using w3 ids len assms(5) by (simp add: info_def sorted_def length_new_entries)
  qed
qed

theorem startMigration_applies_all_witness:
  "initialized example_client \<and>
   read_scripts example_platform (migrationPath example_client) = Inr example_found \<and>
   map sid example_found = [Num 2, Num 1] \<and>
   table fresh_world = [\<lparr>eid = 0, efilename = sentinel_filename, ehash = None\<rparr>] \<and>
   nextval fresh_world = 1 \<and> quiet fresh_world \<and>
   map sid (sort_scripts example_found) = [Num 1, Num 2] \<and>
   applied (startMigration example_platform example_client fresh_world) =
     [data script1, data script2] \<and>
   table (startMigration example_platform example_client fresh_world) =
     [sentinel,
      \<lparr>eid = 1, efilename = ''1_init.sql'', ehash = Some (hash script1)\<rparr>,
      \<lparr>eid = 2, efilename = ''2_add_col.sql'', ehash = Some (hash script2)\<rparr>] \<and>
   length (table (startMigration example_platform example_client fresh_world)) = 3 \<and>
   last (logged (startMigration example_platform example_client fresh_world)) =
     LogInfo MigrationComplete"
proof -
  have init: "initialized example_client" by (simp add: example_client_fields)
  have rd: "read_scripts example_platform (migrationPath example_client) = Inr example_found"
    by (simp add: example_client_fields example_read)
  have ids: "map sid example_found = [Num 2, Num 1]"
    by (simp add: example_found_def script1_fields script2_fields)
  have d: "distinct (map sid example_found)" by (simp add: ids)
  have "{1..int 2} = {1, 2}" by auto
  then have s: "set (map sid example_found) = Num ` {1..int 2}"
    by (auto simp: ids)
  have t: "table fresh_world = [\<lparr>eid = 0, efilename = sentinel_filename, ehash = None\<rparr>]"
    by (simp add: fresh_world_fields sentinel_def)
  have n: "0 < nextval fresh_world" by (simp add: fresh_world_fields)
  have q: "quiet fresh_world" by (simp add: quiet_def fresh_world_fields)
  from startMigration_applies_all [OF init rd d s t n q] init rd ids t q
  show ?thesis
    by (simp add: fresh_world_fields example_sorted script1_fields script2_fields sentinel_def
        upto.simps)
qed

text \<open>
  C8. Let every discovered script have a persisted record with its filename, and
  every record with that filename carry the script's current fingerprint (the state a
  completed run leaves). Then a run changes neither the tracking table nor the
  sequence nor the list of applied scripts, and the only call it can make to the
  database is the \<open>SELECT\<close> of the history. When moreover the engine is initialised,
  the ids pass the sequence check, there is a script, and the \<open>SELECT\<close> goes through,
  the final world is the initial one with that call traced and five log entries, ending
  with "all migration scripts already applied" and the completion message.
\<close>

theorem startMigration_rerun_changes_nothing:
  assumes "read_scripts p (migrationPath c) = Inr found"
    and "\<forall>s\<in>set found. (\<exists>e\<in>set (table w). efilename e = filename s) \<and>
           (\<forall>e\<in>set (table w). efilename e = filename s \<longrightarrow> ehash e = Some (hash s))"
  shows "table (startMigration p c w) = table w \<and>
         applied (startMigration p c w) = applied w \<and>
         nextval (startMigration p c w) = nextval w \<and>
         (trace (startMigration p c w) = trace w \<or>
          trace (startMigration p c w) = trace w @ [PoolQuery SELECT_EXISTING_MIGRATIONS]) \<and>
         (initialized c \<and> check_sequence None (sort_scripts found) = Inr () \<and>
          found \<noteq> [] \<and> next_call_ok w \<longrightarrow>
          startMigration p c w =
            w\<lparr>trace := trace w @ [PoolQuery SELECT_EXISTING_MIGRATIONS],
              outcomes := tl (outcomes w),
              logged := logged w @
                [LogInfo StartMigration,
                 LogDebug (SearchStarted (migrationPath c)),
                 LogDebug (SearchCompleted (length found)),
                 LogInfo AllApplied,
                 LogInfo MigrationComplete]\<rparr>)"
proof -
  let ?w1 = "w\<lparr>logged := logged w @ [LogInfo StartMigration,
      LogDebug (SearchStarted (migrationPath c)), LogDebug (SearchCompleted (length found))]\<rparr>"
  let ?es = "sort_key eid (table w)"
  have matched: "\<forall>s\<in>set (sort_scripts found).
      \<exists>e. find (\<lambda>entry. efilename entry = filename s) ?es = Some e \<and> ehash e = Some (hash s)"
  proof
    fix s assume "s \<in> set (sort_scripts found)"
    then have "s \<in> set found" by (simp add: set_sort_scripts)
    with assms(2) have "\<exists>e\<in>set (table w). efilename e = filename s"
      "\<forall>e\<in>set (table w). efilename e = filename s \<longrightarrow> ehash e = Some (hash s)"
      by blast+
    then show "\<exists>e. find (\<lambda>entry. efilename entry = filename s) ?es = Some e \<and>
        ehash e = Some (hash s)"
      by (rule find_matching_record)
  qed
  have loop: "migration_loop ?es (sort_scripts found) l [] w' = (Inr [], w')" for l w'
    using migration_loop_all_matched [OF matched] .
  have dm_ok: "doMigration (sort_scripts found) ?w1 =
      (Inr (), info AllApplied (?w1\<lparr>trace := trace w @ [PoolQuery SELECT_EXISTING_MIGRATIONS],
         outcomes := tl (outcomes w)\<rparr>))"
    if "next_call_ok w" "found \<noteq> []"
  proof -
    from that(2) assms(2) have "table w \<noteq> []" by (cases found) auto
    then have "?es \<noteq> []" by (metis set_sort set_empty)
    then show ?thesis
      using that(1) loop
      by (cases ?es) (simp_all add: doMigration_def getPersistedMigrations_ok del: last.simps)
  qed
  have dm_thrown: "doMigration (sort_scripts found) ?w1 =
      (Inl (DbError msg), ?w1\<lparr>trace := trace w @ [PoolQuery SELECT_EXISTING_MIGRATIONS],
         outcomes := later\<rparr>)"
    if "outcomes w = Some msg # later" for msg later
    using that by (simp add: doMigration_def getPersistedMigrations_thrown)
  show ?thesis
  proof (cases "initialized c \<and> check_sequence None (sort_scripts found) = Inr () \<and> found \<noteq> []")
    case False
    then consider "\<not> initialized c"
      | e where "initialized c" "check_sequence None (sort_scripts found) = Inl e"
      | "initialized c" "check_sequence None (sort_scripts found) = Inr ()" "found = []"
      by (cases "check_sequence None (sort_scripts found)") auto
    then show ?thesis
    proof cases
      case 1
      then have "startMigration p c w = w\<lparr>logged := logged w @
          [LogInfo StartMigration, LogError UnableToCompleteMigration (Some NotInitialized)]\<rparr>"
        by (simp add: startMigration_def migration_body_def log_error_def info_def)
      with 1 show ?thesis by simp
    next
      case 2
      then have "startMigration p c w = w\<lparr>logged := logged w @
          [LogInfo StartMigration, LogDebug (SearchStarted (migrationPath c)),
           LogDebug (SearchCompleted (length found)),
           LogError UnableToCompleteMigration (Some e)]\<rparr>"
        using assms(1)
        by (simp add: startMigration_def migration_body_def getMigrationsScripts_found
            log_error_def info_def)
      with 2 show ?thesis by simp
    next
      case 3
      then have "startMigration p c w = w\<lparr>logged := logged w @
          [LogInfo StartMigration, LogDebug (SearchStarted (migrationPath c)),
           LogDebug (SearchCompleted (length found)),
           LogInfo (ScriptsNotFound (migrationPath c)), LogInfo MigrationComplete]\<rparr>"
        using assms(1)
        by (simp add: startMigration_def migration_body_def getMigrationsScripts_found
            sort_scripts_Nil_iff info_def)
      with 3 show ?thesis by simp
    qed
  next
    case True
    show ?thesis
    proof (cases "next_call_ok w")
      case ok: True
      show ?thesis
        using True ok assms(1) dm_ok [OF ok]
        by (simp add: startMigration_def migration_body_def getMigrationsScripts_found
            sort_scripts_Nil_iff info_def)
    next
      case False
      then obtain msg later where oc: "outcomes w = Some msg # later"
        using not_next_call_ok by blast
      show ?thesis
        using True False assms(1) dm_thrown [OF oc]
        by (simp add: startMigration_def migration_body_def getMigrationsScripts_found
            sort_scripts_Nil_iff info_def log_error_def)
    qed
  qed
qed

theorem startMigration_rerun_changes_nothing_witness:
  "read_scripts example_platform (migrationPath example_client) = Inr example_found \<and>
   table (startMigration example_platform example_client fresh_world) =
     [sentinel,
      \<lparr>eid = 1, efilename = ''1_init.sql'', ehash = Some (hash script1)\<rparr>,
      \<lparr>eid = 2, efilename = ''2_add_col.sql'', ehash = Some (hash script2)\<rparr>] \<and>
   table (startMigration example_platform example_client
            (startMigration example_platform example_client fresh_world)) =
     table (startMigration example_platform example_client fresh_world) \<and>
   applied (startMigration example_platform example_client
            (startMigration example_platform example_client fresh_world)) =
     applied (startMigration example_platform example_client fresh_world) \<and>
   startMigration example_platform example_client
     (startMigration example_platform example_client fresh_world) =
     (startMigration example_platform example_client fresh_world)
       \<lparr>trace := trace (startMigration example_platform example_client fresh_world) @
                   [PoolQuery SELECT_EXISTING_MIGRATIONS],
        logged := logged (startMigration example_platform example_client fresh_world) @
                   [LogInfo StartMigration, LogDebug (SearchStarted ''sql''),
                    LogDebug (SearchCompleted 2), LogInfo AllApplied,
                    LogInfo MigrationComplete]\<rparr>"
proof -
  let ?w = "startMigration example_platform example_client fresh_world"
  have rd: "read_scripts example_platform (migrationPath example_client) = Inr example_found"
    by (simp add: example_client_fields example_read)
  have tab: "table ?w = [sentinel,
      \<lparr>eid = 1, efilename = ''1_init.sql'', ehash = Some (hash script1)\<rparr>,
      \<lparr>eid = 2, efilename = ''2_add_col.sql'', ehash = Some (hash script2)\<rparr>]"
    by (simp add: first_run)
  have fixed: "\<forall>s\<in>set example_found. (\<exists>e\<in>set (table ?w). efilename e = filename s) \<and>
      (\<forall>e\<in>set (table ?w). efilename e = filename s \<longrightarrow> ehash e = Some (hash s))"
    by (simp add: tab example_found_def sentinel_def sentinel_filename_def script1_def
        script2_def)
  have oc: "outcomes ?w = []"
    by (simp add: first_run) (simp add: fresh_world_def empty_world_def)
  have pre: "initialized example_client \<and>
      check_sequence None (sort_scripts example_found) = Inr () \<and> example_found \<noteq> [] \<and>
      next_call_ok ?w"
    using oc example_sequence
    by (simp add: example_client_fields next_call_ok_def example_found_def)
  from startMigration_rerun_changes_nothing [OF rd fixed] pre oc rd tab
  show ?thesis
    by (simp add: example_client_fields example_length)
qed

end
